theory Spec2Isabelle
  imports Main "HOL-Library.Sublist"
begin

section \<open>Strings and the fixed regular expressions of the agent\<close>

text \<open>
  Python strings are modelled as \<^typ>\<open>string\<close>. The character \<open>.\<close> of a regular
  expression (no DOTALL flag anywhere in the source) matches every character but the
  line feed.
\<close>

abbreviation LF :: char where "LF \<equiv> CHR 0x0A"

text \<open>\<open>p in s\<close> of Python: \<open>p\<close> occurs in \<open>s\<close> as a contiguous substring.\<close>

fun py_in :: "string \<Rightarrow> string \<Rightarrow> bool" where
  "py_in p [] = (p = [])"
| "py_in p (c # s) = (prefix p (c # s) \<or> py_in p s)"

text \<open>
  The regular expressions of the source are sequences of literals and groups \<open>(.+?)\<close>,
  closed by a literal or by a greedy \<open>(.+)\<close>. A matcher tried at the start of a text
  is a function to an optional result; the rest of the expression is its continuation,
  which is how the backtracking of a lazy group is written: the group takes one
  character, tries the continuation, and takes one more character only when the
  continuation fails.
\<close>

definition lit :: "string \<Rightarrow> (string \<Rightarrow> 'a option) \<Rightarrow> string \<Rightarrow> 'a option" where
  "lit p k s = (if prefix p s then k (drop (length p) s) else None)"

fun lazy_dots :: "(string \<Rightarrow> 'a option) \<Rightarrow> string \<Rightarrow> string \<Rightarrow> (string \<times> 'a) option" where
  "lazy_dots k acc [] = None"
| "lazy_dots k acc (c # s) =
     (if c = LF then None
      else (case k s of
              Some r \<Rightarrow> Some (acc @ [c], r)
            | None \<Rightarrow> lazy_dots k (acc @ [c]) s))"

text \<open>A greedy \<open>(.+)\<close> that ends the expression: the longest run without a line feed.\<close>

definition greedy_dots :: "string \<Rightarrow> (string \<times> string) option" where
  "greedy_dots s =
     (if takeWhile (\<lambda>c. c \<noteq> LF) s = [] then None
      else Some (takeWhile (\<lambda>c. c \<noteq> LF) s, dropWhile (\<lambda>c. c \<noteq> LF) s))"

text \<open>The end of an expression that closes with a literal: the text after the match.\<close>

definition fin :: "string \<Rightarrow> string option" where
  "fin s = Some s"

text \<open>\<open>re.search\<close>: the match at the leftmost position where the expression matches.\<close>

fun re_search :: "(string \<Rightarrow> 'a option) \<Rightarrow> string \<Rightarrow> 'a option" where
  "re_search m [] = m []"
| "re_search m (c # s) = (case m (c # s) of Some r \<Rightarrow> Some r | None \<Rightarrow> re_search m s)"

text \<open>\<open>s.split(c)\<close> for a one-character separator, and \<open>sep.join(xs)\<close>.\<close>

fun split_on :: "char \<Rightarrow> string \<Rightarrow> string list" where
  "split_on d [] = [[]]"
| "split_on d (c # s) =
     (if c = d then [] # split_on d s
      else (case split_on d s of [] \<Rightarrow> [[c]] | l # ls \<Rightarrow> (c # l) # ls))"

fun py_join :: "string \<Rightarrow> string list \<Rightarrow> string" where
  "py_join sep [] = []"
| "py_join sep [l] = l"
| "py_join sep (l # l' # ls) = l @ sep @ py_join sep (l' # ls)"

section \<open>Failure records and the failure parser\<close>

text \<open>The dict with the keys \<open>file\<close>, \<open>test\<close> and \<open>error\<close>.\<close>

record failure =
  f_file :: string
  f_test :: string
  f_error :: string

text \<open>\<open>FAILED (.+?)::(.+?) - (.+)\<close> tried at the start of a text: file, test, reason, rest.\<close>

definition failed_at :: "string \<Rightarrow> (string \<times> string \<times> string \<times> string) option" where
  "failed_at =
     lit ''FAILED '' (lazy_dots (lit ''::'' (lazy_dots (lit '' - '' greedy_dots) [])) [])"

lemma greedy_dots_rest: "greedy_dots s = Some (g, rest) \<Longrightarrow> length rest < length s"
  by (cases s) (auto simp: greedy_dots_def length_dropWhile_le less_Suc_eq_le split: if_splits)

lemma lazy_dots_rest:
  assumes "lazy_dots k acc s = Some (g, r)" and "\<And>u. k u = Some r \<Longrightarrow> length (rst r) \<le> length u"
  shows "length (rst r) < length s"
  using assms
proof (induction s arbitrary: acc)
  case Nil
  then show ?case by simp
next
  case (Cons c s)
  show ?case
  proof (cases "k s")
    case None
    with Cons.prems have "lazy_dots k (acc @ [c]) s = Some (g, r)"
      by (auto split: if_splits)
    from Cons.IH[OF this Cons.prems(2)] show ?thesis by simp
  next
    case (Some r')
    with Cons.prems have "r' = r" by (auto split: if_splits)
    with Some Cons.prems(2) show ?thesis by fastforce
  qed
qed

lemma failed_at_rest: "failed_at s = Some (f, t, r, rest) \<Longrightarrow> length rest < length s"
proof -
  assume a: "failed_at s = Some (f, t, r, rest)"
  have g: "\<And>u x. lit '' - '' greedy_dots u = Some x \<Longrightarrow> length (snd x) \<le> length u"
    by (auto simp: lit_def split: if_splits dest!: greedy_dots_rest)
  have t: "\<And>u x. lazy_dots (lit '' - '' greedy_dots) [] u = Some x
             \<Longrightarrow> length (snd (snd x)) \<le> length u"
    using lazy_dots_rest[where rst = snd, OF _ g] by (metis less_imp_le prod.collapse)
  have c: "\<And>u x. lit ''::'' (lazy_dots (lit '' - '' greedy_dots) []) u = Some x
             \<Longrightarrow> length (snd (snd x)) \<le> length u"
    by (auto simp: lit_def split: if_splits dest!: t)
  from a obtain u where u: "lazy_dots (lit ''::'' (lazy_dots (lit '' - '' greedy_dots) [])) [] u
      = Some (f, t, r, rest)" and l: "length u \<le> length s"
    by (auto simp: failed_at_def lit_def split: if_splits)
  from lazy_dots_rest[where rst = "\<lambda>x. snd (snd x)", OF u c] l show ?thesis by simp
qed

text \<open>
  \<open>finditer\<close> with that expression: scan from the left, and after a match go on from
  its end (matches do not overlap).
\<close>

function finditer_failed :: "string \<Rightarrow> failure list" where
  "finditer_failed [] = []"
| "finditer_failed (c # s) =
     (case failed_at (c # s) of
        Some (f, t, r, rest) \<Rightarrow> \<lparr>f_file = f, f_test = t, f_error = r\<rparr> # finditer_failed rest
      | None \<Rightarrow> finditer_failed s)"
  by pat_completeness auto
termination
  by (relation "measure length") (auto dest: failed_at_rest)

definition parse_test_failures :: "string \<Rightarrow> failure list" where
  "parse_test_failures test_output = finditer_failed test_output"


text \<open>
  The lines of a text are its pieces between line feeds. On one line, \<open>re.search\<close>
  with the expression gives the record of that line, if any.
\<close>

definition split_lines :: "string \<Rightarrow> string list" where
  "split_lines s = split_on LF s"

definition line_failure :: "string \<Rightarrow> failure option" where
  "line_failure l =
     (case re_search failed_at l of
        Some (f, t, r, rest) \<Rightarrow> Some \<lparr>f_file = f, f_test = t, f_error = r\<rparr>
      | None \<Rightarrow> None)"

text \<open>
  A well-formed line, in the words of the specification: it reads
  \<open>FAILED <file>::<test> - <reason>\<close> with the three fields non-empty (after any text
  that precedes the word \<open>FAILED\<close>, since the expression is not anchored).
\<close>

definition well_formed_line :: "string \<Rightarrow> bool" where
  "well_formed_line l =
     (\<exists>pre f t r. l = pre @ ''FAILED '' @ f @ ''::'' @ t @ '' - '' @ r
        \<and> f \<noteq> [] \<and> t \<noteq> [] \<and> r \<noteq> [])"

section \<open>Paths and files\<close>

text \<open>
  \<open>os.path\<close> on a POSIX system (\<open>os.sep\<close> is \<open>/\<close>): \<open>join\<close>, \<open>normpath\<close> and
  \<open>abspath\<close>, written after the library's \<open>posixpath\<close>.
\<close>

datatype exn = Exn string

definition path_join :: "string \<Rightarrow> string \<Rightarrow> string" where
  "path_join a b =
     (if prefix ''/'' b then b
      else if a = [] \<or> last a = CHR ''/'' then a @ b
      else a @ ''/'' @ b)"

text \<open>\<open>os.path.join(*parts)\<close>: with no part at all the call itself raises a TypeError.\<close>

definition path_join_list :: "string list \<Rightarrow> exn + string" where
  "path_join_list parts =
     (case parts of
        [] \<Rightarrow> Inl (Exn ''TypeError: join() missing 1 required positional argument'')
      | a # bs \<Rightarrow> Inr (foldl path_join a bs))"

fun norm_comps :: "bool \<Rightarrow> string list \<Rightarrow> string list \<Rightarrow> string list" where
  "norm_comps rooted [] new_comps = new_comps"
| "norm_comps rooted (part # comps) new_comps =
     (if part = [] \<or> part = ''.'' then norm_comps rooted comps new_comps
      else if part \<noteq> ''..'' \<or> (\<not> rooted \<and> new_comps = [])
                \<or> (new_comps \<noteq> [] \<and> last new_comps = ''..'')
        then norm_comps rooted comps (new_comps @ [part])
      else if new_comps \<noteq> [] then norm_comps rooted comps (butlast new_comps)
      else norm_comps rooted comps new_comps)"

definition normpath :: "string \<Rightarrow> string" where
  "normpath path =
     (if path = [] then ''.''
      else
        let initial_slashes =
              (if prefix ''/'' path
               then (if prefix ''//'' path \<and> \<not> prefix ''///'' path then 2 else 1)
               else (0::nat));
            comps = norm_comps (0 < initial_slashes) (split_on (CHR ''/'') path) [];
            p = replicate initial_slashes (CHR ''/'') @ py_join ''/'' comps
        in if p = [] then ''.'' else p)"

definition abspath :: "string \<Rightarrow> string \<Rightarrow> string" where
  "abspath cwd path = normpath (path_join cwd path)"

text \<open>
  The file system is a map from absolute normalised paths to contents; a path given to
  \<open>open\<close>, \<open>os.path.exists\<close> or \<open>shutil.copy\<close> is resolved against the working
  directory. Every path that exists is a regular file that can be read, decoded and
  written (no directories, links, permissions or full disks).
\<close>

type_synonym files = "string \<rightharpoonup> string"

definition path_exists :: "string \<Rightarrow> files \<Rightarrow> string \<Rightarrow> bool" where
  "path_exists cwd fs path = (fs (abspath cwd path) \<noteq> None)"

text \<open>
  Reading in text mode translates \<open>\r\n\<close> and \<open>\r\<close> to \<open>\n\<close> (universal newlines);
  the flag says that the previous character was a carriage return. Writing in text mode
  on POSIX writes the text as it is.
\<close>

abbreviation CR :: char where "CR \<equiv> CHR 0x0D"

fun universal_newlines_from :: "bool \<Rightarrow> string \<Rightarrow> string" where
  "universal_newlines_from cr [] = []"
| "universal_newlines_from cr (c # s) =
     (if c = CR then LF # universal_newlines_from True s
      else if c = LF \<and> cr then universal_newlines_from False s
      else c # universal_newlines_from False s)"

definition universal_newlines :: "string \<Rightarrow> string" where
  "universal_newlines s = universal_newlines_from False s"

definition read_text :: "string \<Rightarrow> files \<Rightarrow> string \<Rightarrow> exn + string" where
  "read_text cwd fs path =
     (case fs (abspath cwd path) of
        None \<Rightarrow> Inl (Exn ''FileNotFoundError'')
      | Some content \<Rightarrow> Inr (universal_newlines content))"

text \<open>\<open>f.readlines()\<close>: the lines of the text read, each with its line feed.\<close>

fun keep_lines :: "string \<Rightarrow> string list" where
  "keep_lines [] = []"
| "keep_lines (c # s) =
     (if c = LF then [LF] # keep_lines s
      else (case keep_lines s of [] \<Rightarrow> [[c]] | l # ls \<Rightarrow> (c # l) # ls))"

definition readlines :: "string \<Rightarrow> files \<Rightarrow> string \<Rightarrow> exn + string list" where
  "readlines cwd fs path =
     (case read_text cwd fs path of Inl e \<Rightarrow> Inl e | Inr text \<Rightarrow> Inr (keep_lines text))"

definition write_text :: "string \<Rightarrow> string \<Rightarrow> string \<Rightarrow> files \<Rightarrow> files" where
  "write_text cwd path text fs = fs(abspath cwd path \<mapsto> text)"

definition writelines :: "string \<Rightarrow> string \<Rightarrow> string list \<Rightarrow> files \<Rightarrow> files" where
  "writelines cwd path lines fs = write_text cwd path (concat lines) fs"

text \<open>\<open>open(path, "a")\<close> and one \<open>write\<close>: the text goes after the content there is.\<close>

definition append_text :: "string \<Rightarrow> string \<Rightarrow> string \<Rightarrow> files \<Rightarrow> files" where
  "append_text cwd path text fs =
     fs(abspath cwd path \<mapsto> (case fs (abspath cwd path) of None \<Rightarrow> text | Some c \<Rightarrow> c @ text))"

text \<open>\<open>shutil.copy(src, dst)\<close>: the bytes of the source, untranslated.\<close>

definition shutil_copy :: "string \<Rightarrow> string \<Rightarrow> string \<Rightarrow> files \<Rightarrow> exn + files" where
  "shutil_copy cwd src dst fs =
     (case fs (abspath cwd src) of
        None \<Rightarrow> Inl (Exn ''FileNotFoundError'')
      | Some content \<Rightarrow> Inr (fs(abspath cwd dst \<mapsto> content)))"

text \<open>\<open>lines.insert(i, x)\<close> for \<open>i \<ge> 0\<close>: past the end it appends.\<close>

definition list_insert :: "nat \<Rightarrow> 'a \<Rightarrow> 'a list \<Rightarrow> 'a list" where
  "list_insert i x xs = take i xs @ x # drop i xs"

section \<open>The world of the agent and its collaborators\<close>

text \<open>
  A value decoded from JSON (numbers with a fraction or an exponent are not modelled).
  Python's \<open>None\<close> is \<open>JNull\<close>.
\<close>

datatype json = JNull | JBool bool | JInt int | JStr string | JArr "json list"
  | JObj "(string \<times> json) list"

text \<open>
  What the agent calls and this repository does not define: the functions of
  \<open>DebugAgentUtils\<close>, the method \<open>_update_config_key\<close>, the test runner, the \<open>json\<close>
  library, and \<open>re\<close> with an expression that is built at run time. Each may raise; the
  ones that write files return the files as they left them, also when they raise.
  \<open>'p\<close> is the type of one patched file of a \<open>PatchSet\<close>.
\<close>

record 'p env =
  cwd :: string
  pytest :: "files \<Rightarrow> exn + string"
  deepseek_chunk_code :: "string \<Rightarrow> exn + string list"
  run_deepseek_ollama_analysis :: "string list \<Rightarrow> string \<Rightarrow> exn + string"
  parse_diff_suggestion :: "json \<Rightarrow> exn + 'p list"
  apply_diff_patch :: "string list \<Rightarrow> 'p list \<Rightarrow> files \<Rightarrow> exn option \<times> files"
  utils_rollback_changes :: "string list \<Rightarrow> files \<Rightarrow> exn option \<times> files"
  update_config_key :: "string \<Rightarrow> json \<Rightarrow> json \<Rightarrow> files \<Rightarrow> (exn + bool) \<times> files"
  json_loads :: "string \<Rightarrow> exn + json"
  json_dump :: "(string \<times> string) list \<Rightarrow> string"
  json_load :: "string \<Rightarrow> exn + (string \<times> string) list"
  re_search_in :: "string \<Rightarrow> string \<Rightarrow> exn + bool"
  re_sub :: "string \<Rightarrow> string \<Rightarrow> string \<Rightarrow> exn + string"

text \<open>
  The calls that leave the process, in the order they were made: a test run, a request to
  the AI backend (chunks and error text), \<open>rollback_changes\<close> with its list of files,
  and the pushing of a commit.
\<close>

datatype event = TestRun | AICall "string list" string | RollbackCall "string list" | Push string

definition test_runs :: "event list \<Rightarrow> nat" where
  "test_runs evs = length (filter (\<lambda>e. e = TestRun) evs)"

definition ai_calls :: "event list \<Rightarrow> nat" where
  "ai_calls evs = length (filter (\<lambda>e. case e of AICall chunks err \<Rightarrow> True | _ \<Rightarrow> False) evs)"

text \<open>
  The state: the files, the dict \<open>self.learning_db\<close> (a Python dict keeps its keys in
  insertion order, so it is a list of pairs with distinct keys), and the calls so far.
\<close>

record world =
  disk :: files
  learning_db :: "(string \<times> string) list"
  events :: "event list"

text \<open>\<open>d[k] = v\<close> on a dict: an existing key keeps its place, a new key goes last.\<close>

fun dict_setitem :: "'k \<Rightarrow> 'v \<Rightarrow> ('k \<times> 'v) list \<Rightarrow> ('k \<times> 'v) list" where
  "dict_setitem k v [] = [(k, v)]"
| "dict_setitem k v ((k', v') # d) =
     (if k' = k then (k, v) # d else (k', v') # dict_setitem k v d)"

definition LEARNING_DB_PATH :: string where
  "LEARNING_DB_PATH = ''learning_db.json''"

section \<open>The pattern matchers\<close>

abbreviation APOS :: char where "APOS \<equiv> CHR 0x27"
abbreviation TAB :: char where "TAB \<equiv> CHR 0x09"
abbreviation BACKSLASH :: char where "BACKSLASH \<equiv> CHR 0x5C"

subsection \<open>Missing attribute\<close>

text \<open>\<open>'(.+?)' object has no attribute '(.+?)'\<close>: class name, attribute, rest.\<close>

definition attribute_at :: "string \<Rightarrow> (string \<times> string \<times> string) option" where
  "attribute_at =
     lit [APOS] (lazy_dots (lit (APOS # '' object has no attribute '' @ [APOS])
       (lazy_dots (lit [APOS] fin) [])) [])"

definition stub_method :: "string \<Rightarrow> string" where
  "stub_method missing_attr =
     ''    def '' @ missing_attr @ ''(self):\<newline>        pass\<newline>\<newline>''"

text \<open>The loop over the lines: the stub goes after the first line naming the class.\<close>

fun insert_stub :: "string \<Rightarrow> string \<Rightarrow> string list \<Rightarrow> string list" where
  "insert_stub class_name missing_attr [] = []"
| "insert_stub class_name missing_attr (line # lines) =
     (if py_in (''class '' @ class_name) line
      then line # stub_method missing_attr # lines
      else line # insert_stub class_name missing_attr lines)"

definition quick_fix_missing_attribute :: "'p env \<Rightarrow> string \<Rightarrow> string \<Rightarrow> world \<Rightarrow> bool \<times> world" where
  "quick_fix_missing_attribute E file_name error_msg w =
     (case re_search attribute_at error_msg of
        None \<Rightarrow> (False, w)
      | Some (class_name, missing_attr, rest) \<Rightarrow>
          let path = path_join ''tests'' file_name in
          if \<not> path_exists (cwd E) (disk w) path then (False, w)
          else (case readlines (cwd E) (disk w) path of
                  Inl e \<Rightarrow> (False, w)
                | Inr lines \<Rightarrow>
                    (True, w\<lparr>disk := writelines (cwd E) path
                                        (insert_stub class_name missing_attr lines) (disk w)\<rparr>)))"

subsection \<open>Assertion mismatch\<close>

text \<open>\<open>AssertionError: (.+?) != (.+)\<close> on the error text: expected, actual, rest.\<close>

definition assertion_at :: "string \<Rightarrow> (string \<times> string \<times> string) option" where
  "assertion_at = lit ''AssertionError: '' (lazy_dots (lit '' != '' greedy_dots) [])"

text \<open>\<open>assert (.+?) == (.+)\<close> on a line of the file.\<close>

definition assert_stmt_at :: "string \<Rightarrow> (string \<times> string \<times> string) option" where
  "assert_stmt_at = lit ''assert '' (lazy_dots (lit '' == '' greedy_dots) [])"

lemma assert_stmt_at_rest:
  assumes "assert_stmt_at s = Some (a, b, rest)"
  shows "length rest < length s"
proof -
  have g: "\<And>u x. lit '' == '' greedy_dots u = Some x \<Longrightarrow> length (snd x) \<le> length u"
    by (auto simp: lit_def split: if_splits dest!: greedy_dots_rest)
  from assms obtain u where u: "lazy_dots (lit '' == '' greedy_dots) [] u = Some (a, b, rest)"
    and l: "length u \<le> length s"
    by (auto simp: assert_stmt_at_def lit_def split: if_splits)
  from lazy_dots_rest[where rst = snd, OF u g] l show ?thesis by simp
qed

text \<open>
  \<open>re.sub\<close> with that expression and a replacement that has no backslash, so that it is
  taken as it is: every match, from the left, gives way to the replacement.
\<close>

function sub_assert_stmt :: "string \<Rightarrow> string \<Rightarrow> string" where
  "sub_assert_stmt repl [] = []"
| "sub_assert_stmt repl (c # s) =
     (case assert_stmt_at (c # s) of
        Some (a, b, rest) \<Rightarrow> repl @ sub_assert_stmt repl rest
      | None \<Rightarrow> c # sub_assert_stmt repl s)"
  by pat_completeness auto
termination
  by (relation "measure (\<lambda>(repl, s). length s)") (auto dest: assert_stmt_at_rest)

text \<open>
  A replacement with a backslash is a template, which the library parses before it
  searches (and may refuse): that case is the library's.
\<close>

definition re_sub_assert :: "'p env \<Rightarrow> string \<Rightarrow> string \<Rightarrow> exn + string" where
  "re_sub_assert E repl line =
     (if BACKSLASH \<in> set repl then re_sub E ''assert (.+?) == (.+)'' repl line
      else Inr (sub_assert_stmt repl line))"

text \<open>The loop: the first line with \<open>assert \<close> and \<open>==\<close> is rewritten; \<open>None\<close> when there is none.\<close>

fun unify_first_assert :: "'p env \<Rightarrow> string \<Rightarrow> string list \<Rightarrow> exn + string list option" where
  "unify_first_assert E actual [] = Inr None"
| "unify_first_assert E actual (line # lines) =
     (if py_in ''assert '' line \<and> py_in ''=='' line
      then (case re_sub_assert E (''assert '' @ actual @ '' == '' @ actual @ [LF]) line of
              Inl e \<Rightarrow> Inl e
            | Inr line' \<Rightarrow> Inr (Some (line' # lines)))
      else (case unify_first_assert E actual lines of
              Inl e \<Rightarrow> Inl e
            | Inr None \<Rightarrow> Inr None
            | Inr (Some lines') \<Rightarrow> Inr (Some (line # lines'))))"

definition quick_fix_assertion_mismatch :: "'p env \<Rightarrow> string \<Rightarrow> string \<Rightarrow> world \<Rightarrow> bool \<times> world" where
  "quick_fix_assertion_mismatch E file_name error_msg w =
     (case re_search assertion_at error_msg of
        None \<Rightarrow> (False, w)
      | Some (expected, actual, rest) \<Rightarrow>
          let path = path_join ''tests'' file_name in
          if \<not> path_exists (cwd E) (disk w) path then (False, w)
          else (case readlines (cwd E) (disk w) path of
                  Inl e \<Rightarrow> (False, w)
                | Inr lines \<Rightarrow>
                    (case unify_first_assert E actual lines of
                       Inl e \<Rightarrow> (False, w)
                     | Inr None \<Rightarrow> (False, w)
                     | Inr (Some lines') \<Rightarrow>
                         (True, w\<lparr>disk := writelines (cwd E) path lines' (disk w)\<rparr>))))"

subsection \<open>Import error\<close>

text \<open>\<open>No module named '(.+?)'\<close>: the module name and the rest.\<close>

definition module_at :: "string \<Rightarrow> (string \<times> string) option" where
  "module_at = lit (''No module named '' @ [APOS]) (lazy_dots (lit [APOS] fin) [])"

text \<open>\<open>any(missing_module in line for line in lines if "import" in line)\<close>\<close>

definition already_imported :: "string \<Rightarrow> string list \<Rightarrow> bool" where
  "already_imported missing_module lines =
     list_ex (\<lambda>line. py_in missing_module line) (filter (\<lambda>line. py_in ''import'' line) lines)"

definition quick_fix_import_error :: "'p env \<Rightarrow> string \<Rightarrow> string \<Rightarrow> world \<Rightarrow> bool \<times> world" where
  "quick_fix_import_error E file_name error_msg w =
     (case re_search module_at error_msg of
        None \<Rightarrow> (False, w)
      | Some (missing_module, rest) \<Rightarrow>
          let path = path_join ''tests'' file_name in
          if \<not> path_exists (cwd E) (disk w) path then (False, w)
          else (case readlines (cwd E) (disk w) path of
                  Inl e \<Rightarrow> (False, w)
                | Inr lines \<Rightarrow>
                    if already_imported missing_module lines then (False, w)
                    else (True, w\<lparr>disk := writelines (cwd E) path
                            (list_insert 0 (''import '' @ missing_module @ [LF]) lines) (disk w)\<rparr>)))"

subsection \<open>Type error\<close>

definition is_digit :: "char \<Rightarrow> bool" where
  "is_digit c = (48 \<le> (of_char c :: nat) \<and> (of_char c :: nat) \<le> 57)"

text \<open>
  A greedy \<open>(\d+)\<close> before a continuation: the longest run of digits first, then one
  digit less each time the continuation fails.
\<close>

fun greedy_upto :: "nat \<Rightarrow> (string \<Rightarrow> 'a option) \<Rightarrow> string \<Rightarrow> (string \<times> 'a) option" where
  "greedy_upto 0 k s = None"
| "greedy_upto (Suc n) k s =
     (case k (drop (Suc n) s) of
        Some r \<Rightarrow> Some (take (Suc n) s, r)
      | None \<Rightarrow> greedy_upto n k s)"

definition greedy_digits :: "(string \<Rightarrow> 'a option) \<Rightarrow> string \<Rightarrow> (string \<times> 'a) option" where
  "greedy_digits k s = greedy_upto (length (takeWhile is_digit s)) k s"

text \<open>\<open>(.+?)\(\) missing (\d+) required positional argument\<close>: function name, count, rest.\<close>

definition type_error_at :: "string \<Rightarrow> (string \<times> string \<times> string) option" where
  "type_error_at =
     lazy_dots (lit ''() missing '' (greedy_digits (lit '' required positional argument'' fin))) []"

text \<open>\<open>int\<close> of a string of decimal digits.\<close>

definition int_of_digits :: "string \<Rightarrow> nat" where
  "int_of_digits ds = foldl (\<lambda>n c. 10 * n + (of_char c - 48)) 0 ds"

text \<open>The expression for the calls of a function, \<open>rf"{function_name}\((.*?)\)"\<close>.\<close>

definition call_pattern :: "string \<Rightarrow> string" where
  "call_pattern function_name = function_name @ [BACKSLASH] @ ''((.*?)'' @ [BACKSLASH] @ '')''"

text \<open>
  The loop over the lines. The expression searched is built from the function name at run
  time, so searching and substituting are the library's; the substitution of one line is
  only made when the search of that line succeeds.
\<close>

fun add_placeholders :: "'p env \<Rightarrow> string \<Rightarrow> string \<Rightarrow> string list \<Rightarrow> exn + bool \<times> string list" where
  "add_placeholders E pat repl [] = Inr (False, [])"
| "add_placeholders E pat repl (line # lines) =
     (case re_search_in E pat line of
        Inl e \<Rightarrow> Inl e
      | Inr found \<Rightarrow>
          (case (if found then re_sub E pat repl line else Inr line) of
             Inl e \<Rightarrow> Inl e
           | Inr line' \<Rightarrow>
               (case add_placeholders E pat repl lines of
                  Inl e \<Rightarrow> Inl e
                | Inr (changed, lines') \<Rightarrow> Inr (found \<or> changed, line' # lines'))))"

definition quick_fix_type_error :: "'p env \<Rightarrow> string \<Rightarrow> string \<Rightarrow> world \<Rightarrow> bool \<times> world" where
  "quick_fix_type_error E file_name error_msg w =
     (case re_search type_error_at error_msg of
        None \<Rightarrow> (False, w)
      | Some (function_name, missing_count_str, rest) \<Rightarrow>
          let missing_count = int_of_digits missing_count_str;
              path = path_join ''tests'' file_name in
          if \<not> path_exists (cwd E) (disk w) path then (False, w)
          else (case readlines (cwd E) (disk w) path of
                  Inl e \<Rightarrow> (False, w)
                | Inr lines \<Rightarrow>
                    let placeholders = py_join '', '' (replicate missing_count ''None'');
                        pat = call_pattern function_name;
                        repl = function_name @ ''('' @ [BACKSLASH] @ ''1, '' @ placeholders @ '')''
                    in (case add_placeholders E pat repl lines of
                          Inl e \<Rightarrow> (False, w)
                        | Inr (changed_something, lines') \<Rightarrow>
                            if changed_something
                            then (True, w\<lparr>disk := writelines (cwd E) path lines' (disk w)\<rparr>)
                            else (False, w))))"

subsection \<open>Indentation\<close>

text \<open>\<open>line.replace("\t", "    ")\<close>\<close>

definition replace_tabs :: "string \<Rightarrow> string" where
  "replace_tabs line = concat (map (\<lambda>c. if c = TAB then ''    '' else [c]) line)"

definition quick_fix_indentation :: "'p env \<Rightarrow> string \<Rightarrow> world \<Rightarrow> bool \<times> world" where
  "quick_fix_indentation E file_name w =
     (let path = path_join ''tests'' file_name in
      if \<not> path_exists (cwd E) (disk w) path then (False, w)
      else (case readlines (cwd E) (disk w) path of
              Inl e \<Rightarrow> (False, w)
            | Inr lines \<Rightarrow>
                (True, w\<lparr>disk := writelines (cwd E) path (map replace_tabs lines) (disk w)\<rparr>)))"

subsection \<open>The classification\<close>

definition apply_known_pattern :: "'p env \<Rightarrow> failure \<Rightarrow> world \<Rightarrow> bool \<times> world" where
  "apply_known_pattern E failure w =
     (let error_msg = f_error failure; file_name = f_file failure in
      if py_in ''AttributeError'' error_msg
        then quick_fix_missing_attribute E file_name error_msg w
      else if py_in ''AssertionError'' error_msg
        then quick_fix_assertion_mismatch E file_name error_msg w
      else if py_in ''ImportError'' error_msg
        then quick_fix_import_error E file_name error_msg w
      else if py_in ''TypeError'' error_msg \<and> py_in ''missing'' error_msg
              \<and> py_in ''required positional argument'' error_msg
        then quick_fix_type_error E file_name error_msg w
      else if py_in ''IndentationError'' error_msg
        then quick_fix_indentation E file_name w
      else (False, w))"

subsection \<open>The target as a matcher reads it\<close>


section \<open>The learning store\<close>

text \<open>The first key, in the order of the dict, that occurs in the error text.\<close>

fun search_learned_fix :: "(string \<times> string) list \<Rightarrow> string \<Rightarrow> string option" where
  "search_learned_fix [] error_msg = None"
| "search_learned_fix ((known_err, fix_str) # db) error_msg =
     (if py_in known_err error_msg then Some fix_str else search_learned_fix db error_msg)"

text \<open>
  \<open>json.dump\<close> of a dict of strings does not raise, and the file can be written, so the
  handler of \<open>_save_learning_db\<close> has nothing to catch.
\<close>

definition save_learning_db :: "'p env \<Rightarrow> world \<Rightarrow> world" where
  "save_learning_db E w =
     w\<lparr>disk := write_text (cwd E) LEARNING_DB_PATH (json_dump E (learning_db w)) (disk w)\<rparr>"

definition load_learning_db :: "'p env \<Rightarrow> world \<Rightarrow> (string \<times> string) list" where
  "load_learning_db E w =
     (if \<not> path_exists (cwd E) (disk w) LEARNING_DB_PATH then []
      else (case read_text (cwd E) (disk w) LEARNING_DB_PATH of
              Inl e \<Rightarrow> []
            | Inr text \<Rightarrow> (case json_load E text of Inl e \<Rightarrow> [] | Inr data \<Rightarrow> data)))"

definition store_learned_fix :: "'p env \<Rightarrow> string \<Rightarrow> string \<Rightarrow> world \<Rightarrow> world" where
  "store_learned_fix E error_msg fix_str w =
     save_learning_db E (w\<lparr>learning_db := dict_setitem error_msg fix_str (learning_db w)\<rparr>)"

section \<open>The learned tier\<close>

text \<open>The path of the target: leading \<open>tests\<close> components are dropped, then one is put back.\<close>

definition learned_file_path :: "'p env \<Rightarrow> string \<Rightarrow> exn + string" where
  "learned_file_path E file_name =
     (let relative_path = normpath file_name in
      case (if py_in ''tests'' relative_path
            then path_join_list (dropWhile (\<lambda>p. p = ''tests'') (split_on (CHR ''/'') relative_path))
            else Inr relative_path) of
        Inl e \<Rightarrow> Inl e
      | Inr relative_path' \<Rightarrow> Inr (abspath (cwd E) (path_join ''tests'' relative_path')))"

text \<open>\<open>d.get(k)\<close> and \<open>d.get(k, default)\<close> on a decoded object.\<close>

definition dict_get :: "(string \<times> json) list \<Rightarrow> string \<Rightarrow> json \<Rightarrow> json" where
  "dict_get d k dflt = (case map_of d k of None \<Rightarrow> dflt | Some v \<Rightarrow> v)"

text \<open>What a \<open>for\<close> loop over a decoded value goes through.\<close>

fun py_iter :: "json \<Rightarrow> exn + json list" where
  "py_iter (JArr xs) = Inr xs"
| "py_iter (JStr s) = Inr (map (\<lambda>c. JStr [c]) s)"
| "py_iter (JObj d) = Inr (map (\<lambda>(k, v). JStr k) d)"
| "py_iter v = Inl (Exn ''TypeError: object is not iterable'')"

text \<open>The integer that \<open>0 <= line_no < len(file_lines)\<close> compares; other values raise.\<close>

fun py_int :: "json \<Rightarrow> int option" where
  "py_int (JInt n) = Some n"
| "py_int (JBool b) = Some (if b then 1 else 0)"
| "py_int v = None"

definition is_space :: "char \<Rightarrow> bool" where
  "is_space c =
     (let n = (of_char c :: nat)
      in (9 \<le> n \<and> n \<le> 13) \<or> (28 \<le> n \<and> n \<le> 32) \<or> n = 133 \<or> n = 160)"

definition strip :: "string \<Rightarrow> string" where
  "strip s = rev (dropWhile is_space (rev (dropWhile is_space s)))"

fun inject_snippets :: "json list \<Rightarrow> string list \<Rightarrow> exn + string list" where
  "inject_snippets [] file_lines = Inr file_lines"
| "inject_snippets (patch_line # patch_lines) file_lines =
     (case patch_line of
        JObj p \<Rightarrow>
          (case dict_get p ''insert_after'' (JStr []) of
             JStr s \<Rightarrow>
               (case py_int (dict_get p ''line_no'' JNull) of
                  None \<Rightarrow> Inl (Exn ''TypeError: comparison with a value that is no number'')
                | Some line_no \<Rightarrow>
                    inject_snippets patch_lines
                      (if 0 \<le> line_no \<and> line_no < int (length file_lines)
                       then list_insert (nat (line_no + 1)) (strip s @ [LF]) file_lines
                       else file_lines))
           | _ \<Rightarrow> Inl (Exn ''AttributeError: strip''))
      | _ \<Rightarrow> Inl (Exn ''AttributeError: get''))"

text \<open>A parsed suggestion applied to the target; the patch may raise after it wrote.\<close>

definition apply_patch_obj :: "'p env \<Rightarrow> string \<Rightarrow> 'p list \<Rightarrow> world \<Rightarrow> (exn + bool) \<times> world" where
  "apply_patch_obj E file_path patch_obj w =
     (if patch_obj = [] then (Inr False, w)
      else (case apply_diff_patch E [file_path] patch_obj (disk w) of
              (Some e, files') \<Rightarrow> (Inl e, w\<lparr>disk := files'\<rparr>)
            | (None, files') \<Rightarrow> (Inr True, w\<lparr>disk := files'\<rparr>)))"

text \<open>
  The body of the \<open>try\<close> after the backup is made: \<open>Inl\<close> is an exception on its way to
  the handler, with the files as they are at that moment.
\<close>

definition apply_learned_payload :: "'p env \<Rightarrow> string \<Rightarrow> string \<Rightarrow> world \<Rightarrow> (exn + bool) \<times> world" where
  "apply_learned_payload E file_path known_fix w =
     (if prefix ''{'' known_fix \<and> py_in ''type'' known_fix then
        (case json_loads E known_fix of
           Inl e \<Rightarrow> (Inl e, w)
         | Inr (JObj fix_data) \<Rightarrow>
             if dict_get fix_data ''type'' JNull = JStr ''snippet_inject'' then
               (case readlines (cwd E) (disk w) file_path of
                  Inl e \<Rightarrow> (Inl e, w)
                | Inr file_lines \<Rightarrow>
                    (case py_iter (dict_get fix_data ''target_lines'' (JArr [])) of
                       Inl e \<Rightarrow> (Inl e, w)
                     | Inr target_lines \<Rightarrow>
                         (case inject_snippets target_lines file_lines of
                            Inl e \<Rightarrow> (Inl e, w)
                          | Inr file_lines' \<Rightarrow>
                              (Inr True,
                               w\<lparr>disk := writelines (cwd E) file_path file_lines' (disk w)\<rparr>))))
             else if dict_get fix_data ''type'' JNull = JStr ''unified_diff'' then
               (case parse_diff_suggestion E (dict_get fix_data ''diff_text'' (JStr [])) of
                  Inl e \<Rightarrow> (Inl e, w)
                | Inr patch_obj \<Rightarrow> apply_patch_obj E file_path patch_obj w)
             else if dict_get fix_data ''type'' JNull = JStr ''config_update'' then
               (case update_config_key E file_path (dict_get fix_data ''config_key'' JNull)
                       (dict_get fix_data ''new_value'' JNull) (disk w) of
                  (r, files') \<Rightarrow> (r, w\<lparr>disk := files'\<rparr>))
             else (Inr False, w)
         | Inr _ \<Rightarrow> (Inl (Exn ''AttributeError: get''), w))
      else if py_in ''diff --git'' known_fix then
        (case parse_diff_suggestion E (JStr known_fix) of
           Inl e \<Rightarrow> (Inl e, w)
         | Inr patch_obj \<Rightarrow> apply_patch_obj E file_path patch_obj w)
      else if py_in ''def '' known_fix \<or> py_in ''class '' known_fix then
        (Inr True, w\<lparr>disk := append_text (cwd E) file_path ([LF] @ known_fix @ [LF]) (disk w)\<rparr>)
      else (Inr False, w))"

text \<open>
  The learned tier. The backup is the first statement of the \<open>try\<close>; the handler copies
  the backup back and reports failure, and an exception of that copy is not caught. An
  empty fix string counts as no fix (\<open>if not known_fix\<close>).
\<close>

definition apply_adaptive_learning_fix :: "'p env \<Rightarrow> failure \<Rightarrow> world \<Rightarrow> (exn + bool) \<times> world" where
  "apply_adaptive_learning_fix E failure w =
     (case learned_file_path E (f_file failure) of
        Inl e \<Rightarrow> (Inl e, w)
      | Inr file_path \<Rightarrow>
          if \<not> path_exists (cwd E) (disk w) file_path then (Inr False, w)
          else (case search_learned_fix (learning_db w) (f_error failure) of
                  None \<Rightarrow> (Inr False, w)
                | Some known_fix \<Rightarrow>
                    if known_fix = [] then (Inr False, w)
                    else
                      let backup_path = file_path @ ''.backup'';
                          restore = (\<lambda>w'. case shutil_copy (cwd E) backup_path file_path (disk w') of
                                             Inl e \<Rightarrow> (Inl e, w')
                                           | Inr files' \<Rightarrow> (Inr False, w'\<lparr>disk := files'\<rparr>))
                      in (case shutil_copy (cwd E) file_path backup_path (disk w) of
                            Inl e \<Rightarrow> restore w
                          | Inr files1 \<Rightarrow>
                              (case apply_learned_payload E file_path known_fix (w\<lparr>disk := files1\<rparr>) of
                                 (Inl e, w2) \<Rightarrow> restore w2
                               | (Inr ok, w2) \<Rightarrow> (Inr ok, w2)))))"

section \<open>The json library on a dict of strings\<close>

text \<open>
  \<open>json.dump(d, f, indent=4)\<close> for a dict of strings, and \<open>json.load\<close> on the text of
  an object whose values are strings, written after the library with its defaults
  (\<open>ensure_ascii\<close> for the writer, \<open>strict\<close> for the reader). Characters are the code
  points below 256. A value that is not a string is outside \<open>Dict[str, str]\<close>, the type
  of the store, and counts as a text that cannot be decoded.
\<close>

abbreviation DQUOTE :: char where "DQUOTE \<equiv> CHR 0x22"

definition hex_digits :: string where
  "hex_digits = ''0123456789abcdef''"

definition hex_digit :: "nat \<Rightarrow> char" where
  "hex_digit n = hex_digits ! n"

definition hex_value :: "char \<Rightarrow> nat option" where
  "hex_value c =
     (let n = (of_char c :: nat)
      in if 48 \<le> n \<and> n \<le> 57 then Some (n - 48)
         else if 97 \<le> n \<and> n \<le> 102 then Some (n - 87)
         else if 65 \<le> n \<and> n \<le> 70 then Some (n - 55)
         else None)"

text \<open>
  The writer: a double quote, a backslash and the five control characters with a short
  form get it; every other character outside the printable ASCII range becomes
  \<open>\u00XX\<close>.
\<close>

definition escape_char :: "char \<Rightarrow> string" where
  "escape_char c =
     (if c = DQUOTE then [BACKSLASH, DQUOTE]
      else if c = BACKSLASH then [BACKSLASH, BACKSLASH]
      else if c = LF then [BACKSLASH, CHR ''n'']
      else if c = CR then [BACKSLASH, CHR ''r'']
      else if c = TAB then [BACKSLASH, CHR ''t'']
      else if c = CHR 0x08 then [BACKSLASH, CHR ''b'']
      else if c = CHR 0x0C then [BACKSLASH, CHR ''f'']
      else if 32 \<le> (of_char c :: nat) \<and> (of_char c :: nat) \<le> 126 then [c]
      else [BACKSLASH, CHR ''u'', CHR ''0'', CHR ''0'',
            hex_digit ((of_char c :: nat) div 16), hex_digit ((of_char c :: nat) mod 16)])"

definition encode_string :: "string \<Rightarrow> string" where
  "encode_string s = [DQUOTE] @ concat (map escape_char s) @ [DQUOTE]"

definition dump_item :: "string \<times> string \<Rightarrow> string" where
  "dump_item item = ''    '' @ encode_string (fst item) @ '': '' @ encode_string (snd item)"

definition py_json_dump :: "(string \<times> string) list \<Rightarrow> string" where
  "py_json_dump d =
     (if d = [] then ''{}''
      else ''{'' @ [LF] @ py_join ('','' @ [LF]) (map dump_item d) @ [LF] @ ''}'')"

text \<open>
  The reader goes through the text character by character. Inside a string it is in plain
  text, after a backslash, or in the four hexadecimal digits after \<open>\u\<close> (digits still
  to come, value so far); one character ends the string, is refused, or is taken.
\<close>

datatype scan = Plain | Escape | Hex nat nat

datatype scanned = Bad | Done | More scan string

definition unescape :: "char \<Rightarrow> char option" where
  "unescape c =
     (if c = DQUOTE then Some DQUOTE
      else if c = BACKSLASH then Some BACKSLASH
      else if c = CHR ''/'' then Some (CHR ''/'')
      else if c = CHR ''b'' then Some (CHR 0x08)
      else if c = CHR ''f'' then Some (CHR 0x0C)
      else if c = CHR ''n'' then Some LF
      else if c = CHR ''r'' then Some CR
      else if c = CHR ''t'' then Some TAB
      else None)"

fun scan_step :: "scan \<Rightarrow> string \<Rightarrow> char \<Rightarrow> scanned" where
  "scan_step Plain acc c =
     (if c = DQUOTE then Done
      else if c = BACKSLASH then More Escape acc
      else if (of_char c :: nat) < 32 then Bad
      else More Plain (acc @ [c]))"
| "scan_step Escape acc c =
     (if c = CHR ''u'' then More (Hex 4 0) acc
      else (case unescape c of None \<Rightarrow> Bad | Some x \<Rightarrow> More Plain (acc @ [x])))"
| "scan_step (Hex k v) acc c =
     (case hex_value c of
        None \<Rightarrow> Bad
      | Some d \<Rightarrow>
          if k \<le> 1
          then (if 16 * v + d < 256 then More Plain (acc @ [char_of (16 * v + d)]) else Bad)
          else More (Hex (k - 1) (16 * v + d)) acc)"

text \<open>
  Where the reader is in the object: before the brace, after it, in a key, before the
  colon, before the value, in the value of a key, after a value, after a comma, after the
  closing brace. A key that comes twice keeps its first place and its last value, as in
  a dict.
\<close>

datatype jstate = Start | Open | Key scan string | Colon string | Value string
  | Val string scan string | Next | Comma | Closed

definition is_ws :: "char \<Rightarrow> bool" where
  "is_ws c = (c = CHR '' '' \<or> c = TAB \<or> c = LF \<or> c = CR)"

fun json_run :: "jstate \<Rightarrow> (string \<times> string) list \<Rightarrow> string \<Rightarrow> exn + (string \<times> string) list" where
  "json_run st d [] =
     (case st of Closed \<Rightarrow> Inr d | _ \<Rightarrow> Inl (Exn ''JSONDecodeError''))"
| "json_run st d (c # s) =
     (case st of
        Start \<Rightarrow>
          if is_ws c then json_run Start d s
          else if c = CHR ''{'' then json_run Open d s
          else Inl (Exn ''JSONDecodeError'')
      | Open \<Rightarrow>
          if is_ws c then json_run Open d s
          else if c = CHR ''}'' then json_run Closed d s
          else if c = DQUOTE then json_run (Key Plain []) d s
          else Inl (Exn ''JSONDecodeError'')
      | Key m acc \<Rightarrow>
          (case scan_step m acc c of
             Bad \<Rightarrow> Inl (Exn ''JSONDecodeError'')
           | Done \<Rightarrow> json_run (Colon acc) d s
           | More m' acc' \<Rightarrow> json_run (Key m' acc') d s)
      | Colon k \<Rightarrow>
          if is_ws c then json_run (Colon k) d s
          else if c = CHR '':'' then json_run (Value k) d s
          else Inl (Exn ''JSONDecodeError'')
      | Value k \<Rightarrow>
          if is_ws c then json_run (Value k) d s
          else if c = DQUOTE then json_run (Val k Plain []) d s
          else Inl (Exn ''JSONDecodeError'')
      | Val k m acc \<Rightarrow>
          (case scan_step m acc c of
             Bad \<Rightarrow> Inl (Exn ''JSONDecodeError'')
           | Done \<Rightarrow> json_run Next (dict_setitem k acc d) s
           | More m' acc' \<Rightarrow> json_run (Val k m' acc') d s)
      | Next \<Rightarrow>
          if is_ws c then json_run Next d s
          else if c = CHR '','' then json_run Comma d s
          else if c = CHR ''}'' then json_run Closed d s
          else Inl (Exn ''JSONDecodeError'')
      | Comma \<Rightarrow>
          if is_ws c then json_run Comma d s
          else if c = DQUOTE then json_run (Key Plain []) d s
          else Inl (Exn ''JSONDecodeError'')
      | Closed \<Rightarrow>
          if is_ws c then json_run Closed d s
          else Inl (Exn ''JSONDecodeError''))"

definition py_json_load :: "string \<Rightarrow> exn + (string \<times> string) list" where
  "py_json_load s = json_run Start [] s"

section \<open>The AI tier and the dispatch of one failure\<close>

text \<open>
  The AI tier: everything after the test for the file is inside one \<open>try\<close> whose handler
  only reports failure. The request to the backend is recorded when it is made.
\<close>

definition apply_ollama_deepseek_fix :: "'p env \<Rightarrow> failure \<Rightarrow> world \<Rightarrow> bool \<times> world" where
  "apply_ollama_deepseek_fix E failure w =
     (let file_path = path_join ''tests'' (f_file failure) in
      if \<not> path_exists (cwd E) (disk w) file_path then (False, w)
      else (case read_text (cwd E) (disk w) file_path of
              Inl e \<Rightarrow> (False, w)
            | Inr file_content \<Rightarrow>
                (case deepseek_chunk_code E file_content of
                   Inl e \<Rightarrow> (False, w)
                 | Inr chunks \<Rightarrow>
                     let w1 = w\<lparr>events := events w @ [AICall chunks (f_error failure)]\<rparr> in
                     (case run_deepseek_ollama_analysis E chunks (f_error failure) of
                        Inl e \<Rightarrow> (False, w1)
                      | Inr suggestion \<Rightarrow>
                          (case parse_diff_suggestion E (JStr suggestion) of
                             Inl e \<Rightarrow> (False, w1)
                           | Inr patch_obj \<Rightarrow>
                               (case apply_patch_obj E file_path patch_obj w1 of
                                  (Inl e, w2) \<Rightarrow> (False, w2)
                                | (Inr ok, w2) \<Rightarrow> (ok, w2)))))))"

definition apply_fix :: "'p env \<Rightarrow> failure \<Rightarrow> world \<Rightarrow> (exn + bool) \<times> world" where
  "apply_fix E failure w =
     (case apply_known_pattern E failure w of
        (True, w1) \<Rightarrow> (Inr True, w1)
      | (False, w1) \<Rightarrow>
          (case apply_adaptive_learning_fix E failure w1 of
             (Inl e, w2) \<Rightarrow> (Inl e, w2)
           | (Inr True, w2) \<Rightarrow> (Inr True, w2)
           | (Inr False, w2) \<Rightarrow>
               (case apply_ollama_deepseek_fix E failure w2 of
                  (True, w3) \<Rightarrow>
                    (Inr True,
                     store_learned_fix E (f_error failure) ''LLM-based patch (not real code)'' w3)
                | (False, w3) \<Rightarrow> (Inr False, w3))))"

section \<open>The retry loop\<close>

text \<open>The dict that \<open>retry_tests\<close> returns.\<close>

record outcome =
  status :: string
  message :: string

definition run_tests :: "'p env \<Rightarrow> world \<Rightarrow> string \<times> world" where
  "run_tests E w =
     (case pytest E (disk w) of
        Inl (Exn msg) \<Rightarrow> ''Error running tests: '' @ msg
      | Inr out \<Rightarrow> out,
      w\<lparr>events := events w @ [TestRun]\<rparr>)"

text \<open>\<open>push_to_github\<close> catches whatever the three git commands raise.\<close>

definition push_to_github :: "string \<Rightarrow> world \<Rightarrow> world" where
  "push_to_github commit_message w = w\<lparr>events := events w @ [Push commit_message]\<rparr>"

text \<open>\<open>rollback_changes\<close>: with no file it only logs; an exception of the collaborator is not caught.\<close>

definition rollback_changes :: "'p env \<Rightarrow> string list \<Rightarrow> world \<Rightarrow> exn option \<times> world" where
  "rollback_changes E files_modified w =
     (let w1 = w\<lparr>events := events w @ [RollbackCall files_modified]\<rparr> in
      if files_modified = [] then (None, w1)
      else (case utils_rollback_changes E files_modified (disk w1) of
              (r, files') \<Rightarrow> (r, w1\<lparr>disk := files'\<rparr>)))"

text \<open>
  The inner loop over the failures of one attempt. \<open>Inr (Inl o)\<close> is the \<open>return\<close> in the
  \<open>else\<close> branch, \<open>Inr (Inr modified_files)\<close> the end of the loop, \<open>Inl\<close> an exception.
\<close>

fun fix_failures ::
  "'p env \<Rightarrow> failure list \<Rightarrow> string list \<Rightarrow> world \<Rightarrow> (exn + outcome + string list) \<times> world" where
  "fix_failures E [] modified_files w = (Inr (Inr modified_files), w)"
| "fix_failures E (failure # failures) modified_files w =
     (let file_name = f_file failure in
      case apply_fix E failure w of
        (Inl e, w1) \<Rightarrow> (Inl e, w1)
      | (Inr fix_ok, w1) \<Rightarrow>
          if fix_ok \<and> file_name \<notin> set modified_files
          then fix_failures E failures (modified_files @ [file_name]) w1
          else (case rollback_changes E modified_files w1 of
                  (Some e, w2) \<Rightarrow> (Inl e, w2)
                | (None, w2) \<Rightarrow>
                    (Inr (Inl \<lparr>status = ''error'',
                               message = ''Could not fix '' @ file_name @ '' automatically.''\<rparr>),
                     w2)))"

text \<open>The outer loop, by the number of attempts that are left.\<close>

fun retry_loop :: "'p env \<Rightarrow> nat \<Rightarrow> string list \<Rightarrow> world \<Rightarrow> (exn + outcome) \<times> world" where
  "retry_loop E 0 modified_files w =
     (Inr \<lparr>status = ''error'', message = ''Max retries reached. Unresolved issues remain.''\<rparr>, w)"
| "retry_loop E (Suc n) modified_files w =
     (case run_tests E w of
        (test_output, w1) \<Rightarrow>
          let failures = parse_test_failures test_output in
          if failures = []
          then (Inr \<lparr>status = ''success'', message = ''All tests passed!''\<rparr>,
                push_to_github ''All tests passed! Automated fix commits.'' w1)
          else (case fix_failures E failures modified_files w1 of
                  (Inl e, w2) \<Rightarrow> (Inl e, w2)
                | (Inr (Inl result), w2) \<Rightarrow> (Inr result, w2)
                | (Inr (Inr modified_files'), w2) \<Rightarrow> retry_loop E n modified_files' w2))"

text \<open>\<open>range(1, max_retries + 1)\<close> is empty for \<open>max_retries \<le> 0\<close>.\<close>

definition retry_tests :: "'p env \<Rightarrow> int \<Rightarrow> world \<Rightarrow> (exn + outcome) \<times> world" where
  "retry_tests E max_retries w = retry_loop E (nat max_retries) [] w"

definition automate_debugging :: "'p env \<Rightarrow> world \<Rightarrow> (exn + outcome) \<times> world" where
  "automate_debugging E w = retry_tests E 3 w"

section \<open>The classification, in the words of the specification\<close>

text \<open>
  The pattern classes in their fixed priority order, each with the substrings that
  select it; the class of an error text is the first one in that order that applies.
\<close>

datatype pattern_class = MissingAttribute | AssertionMismatch | ImportError | TypeError
  | Indentation

fun class_applies :: "pattern_class \<Rightarrow> string \<Rightarrow> bool" where
  "class_applies MissingAttribute error_msg = py_in ''AttributeError'' error_msg"
| "class_applies AssertionMismatch error_msg = py_in ''AssertionError'' error_msg"
| "class_applies ImportError error_msg = py_in ''ImportError'' error_msg"
| "class_applies TypeError error_msg =
     (py_in ''TypeError'' error_msg \<and> py_in ''missing'' error_msg
      \<and> py_in ''required positional argument'' error_msg)"
| "class_applies Indentation error_msg = py_in ''IndentationError'' error_msg"

definition classify :: "string \<Rightarrow> pattern_class option" where
  "classify error_msg =
     List.find (\<lambda>c. class_applies c error_msg)
       [MissingAttribute, AssertionMismatch, ImportError, TypeError, Indentation]"

fun run_matcher :: "'p env \<Rightarrow> pattern_class \<Rightarrow> failure \<Rightarrow> world \<Rightarrow> bool \<times> world" where
  "run_matcher E MissingAttribute f w = quick_fix_missing_attribute E (f_file f) (f_error f) w"
| "run_matcher E AssertionMismatch f w = quick_fix_assertion_mismatch E (f_file f) (f_error f) w"
| "run_matcher E ImportError f w = quick_fix_import_error E (f_file f) (f_error f) w"
| "run_matcher E TypeError f w = quick_fix_type_error E (f_file f) (f_error f) w"
| "run_matcher E Indentation f w = quick_fix_indentation E (f_file f) w"

section \<open>A small concrete environment\<close>

text \<open>
  Collaborators to run the agent on concrete inputs: a backend whose suggestion parses to
  one patched file, a patch that rewrites its target, a test runner with no output, and a
  reader and writer of flat JSON objects whose strings need no escape (the strings of the
  file are the pieces between double quotes, key and value in turn).
\<close>

definition demo_dump :: "(string \<times> string) list \<Rightarrow> string" where
  "demo_dump d =
     ''{'' @ py_join '', '' (map (\<lambda>(k, v). [DQUOTE] @ k @ [DQUOTE] @ '': '' @ [DQUOTE] @ v @ [DQUOTE]) d)
       @ ''}''"

fun demo_pairs :: "string list \<Rightarrow> (string \<times> string) list" where
  "demo_pairs (sep # k # colon # v # more_pieces) = (k, v) # demo_pairs more_pieces"
| "demo_pairs pieces = []"

definition demo_load :: "string \<Rightarrow> exn + (string \<times> string) list" where
  "demo_load s =
     (if prefix ''{'' s then Inr (demo_pairs (split_on DQUOTE s))
      else Inl (Exn ''JSONDecodeError''))"

definition demo_env :: "unit env" where
  "demo_env =
     \<lparr>cwd = ''/w'',
      pytest = (\<lambda>files. Inr []),
      deepseek_chunk_code = (\<lambda>s. Inr [s]),
      run_deepseek_ollama_analysis = (\<lambda>chunks error_msg. Inr ''diff --git a b''),
      parse_diff_suggestion = (\<lambda>j. Inr [()]),
      apply_diff_patch = (\<lambda>paths patch files. (None, write_text ''/w'' (hd paths) ''patched'' files)),
      utils_rollback_changes = (\<lambda>paths files. (None, files)),
      update_config_key = (\<lambda>path k v files. (Inr False, files)),
      json_loads = (\<lambda>s. Inl (Exn ''JSONDecodeError'')),
      json_dump = demo_dump,
      json_load = demo_load,
      re_search_in = (\<lambda>pat line. Inr False),
      re_sub = (\<lambda>pat repl line. Inr line)\<rparr>"

text \<open>A world whose only file is \<open>/w/tests/t.py\<close>, with the given content.\<close>

definition demo_world :: "string \<Rightarrow> world" where
  "demo_world content =
     \<lparr>disk = [''/w/tests/t.py'' \<mapsto> content], learning_db = [], events = []\<rparr>"

text \<open>A world with two learned entries and no file.\<close>

definition two_entry_world :: world where
  "two_entry_world =
     \<lparr>disk = Map.empty,
      learning_db = [(''KeyError: a'', ''first''), (''ValueError: b'', ''second'')],
      events = []\<rparr>"

text \<open>A failure that no pattern classifies.\<close>

definition boom_failure :: failure where
  "boom_failure = \<lparr>f_file = ''t.py'', f_test = ''test_x'', f_error = ''ValueError: boom''\<rparr>"

text \<open>A patch that raises after it has written half of its target.\<close>

definition raising_env :: "unit env" where
  "raising_env =
     demo_env\<lparr>apply_diff_patch :=
       (\<lambda>paths patch files.
          (Some (Exn ''hunk does not apply''), write_text ''/w'' (hd paths) ''half a patch'' files))\<rparr>"

text \<open>A world whose learning store holds a diff for errors that mention \<open>boom\<close>.\<close>

definition learned_world :: "string \<Rightarrow> world" where
  "learned_world content =
     (demo_world content)\<lparr>learning_db := [(''boom'', ''diff --git a/t.py b/t.py'')]\<rparr>"

text \<open>
  Test runners: one that always reports the same failure; one that reports two failures
  in the same file; and one that reports a failure in a second file once the first file
  is patched.
\<close>

definition same_failure_env :: "unit env" where
  "same_failure_env =
     demo_env\<lparr>pytest := (\<lambda>files. Inr ''FAILED t.py::test_x - ValueError: boom'')\<rparr>"

definition same_file_env :: "unit env" where
  "same_file_env =
     demo_env\<lparr>pytest := (\<lambda>files. Inr
       ''FAILED t.py::test_a - IndentationError: unexpected indent\<newline>FAILED t.py::test_b - IndentationError: unexpected indent'')\<rparr>"

definition two_round_env :: "unit env" where
  "two_round_env =
     demo_env\<lparr>pytest := (\<lambda>files.
       if files ''/w/tests/t.py'' = Some ''patched''
       then Inr ''FAILED u.py::test_y - ValueError: boom''
       else Inr ''FAILED t.py::test_x - ValueError: boom'')\<rparr>"

definition two_file_world :: world where
  "two_file_world =
     \<lparr>disk = [''/w/tests/t.py'' \<mapsto> ''x = 1'', ''/w/tests/u.py'' \<mapsto> ''y = 2''],
      learning_db = [], events = []\<rparr>"

text \<open>
  A failure whose text names two classes, the first of which has nothing to extract, and
  one that only the indentation matcher takes.
\<close>

definition mixed_failure :: failure where
  "mixed_failure =
     \<lparr>f_file = ''t.py'', f_test = ''test_x'',
      f_error = ''AttributeError after IndentationError: boom''\<rparr>"

definition indent_failure :: failure where
  "indent_failure =
     \<lparr>f_file = ''t.py'', f_test = ''test_a'', f_error = ''IndentationError: unexpected indent''\<rparr>"





text \<open>The world after the first attempt of the loop with \<open>same_failure_env\<close>.\<close>

definition after_first_attempt :: world where
  "after_first_attempt =
     snd (apply_fix same_failure_env boom_failure
            (snd (run_tests same_failure_env (demo_world ''x = 1''))))"

text \<open>
  The environment whose \<open>json\<close> is the library's, a store whose texts need escapes, and
  a new process that finds the files as a save of that store left them.
\<close>

definition json_env :: "unit env" where
  "json_env = demo_env\<lparr>json_dump := py_json_dump, json_load := py_json_load\<rparr>"

definition escapes_world :: world where
  "escapes_world =
     \<lparr>disk = Map.empty,
      learning_db =
        [(''KeyError: '' @ [DQUOTE] @ ''a'' @ [DQUOTE], ''x'' @ [BACKSLASH] @ ''y'' @ [CHR 0xE9]),
         (''E  assert 1 == 2'' @ [CR, LF, TAB] @ ''+1'', [])],
      events = []\<rparr>"

definition fresh_world :: world where
  "fresh_world =
     \<lparr>disk = disk (save_learning_db json_env escapes_world), learning_db = [], events = []\<rparr>"

section \<open>The failure parser: one record per well-formed line\<close>

lemma split_on_ne: "split_on d s \<noteq> []"
  by (induction s) (auto split: list.splits)

lemma join_split_on: "py_join [d] (split_on d s) = s"
proof (induction s)
  case Nil show ?case by simp
next
  case (Cons c s)
  obtain l ls where e: "split_on d s = l # ls" using split_on_ne[of d s] by (cases "split_on d s") auto
  with Cons show ?case by (cases ls) auto
qed

lemma split_on_no_sep: "l \<in> set (split_on d s) \<Longrightarrow> d \<notin> set l"
proof (induction s arbitrary: l)
  case Nil then show ?case by simp
next
  case (Cons c s)
  then show ?case by (auto split: if_splits list.splits)
qed

lemma lit_SomeD: "lit p k s = Some r \<Longrightarrow> \<exists>u. s = p @ u \<and> k u = Some r"
  by (auto simp: lit_def prefix_def split: if_splits)

lemma lit_append: "lit p k (p @ u) = k u"
  by (simp add: lit_def)

lemma lazy_dots_SomeD:
  "lazy_dots k acc s = Some (g, r) \<Longrightarrow>
     \<exists>a b. s = a @ b \<and> a \<noteq> [] \<and> LF \<notin> set a \<and> g = acc @ a \<and> k b = Some r"
proof (induction s arbitrary: acc)
  case Nil then show ?case by simp
next
  case (Cons c s)
  show ?case
  proof (cases "k s")
    case None
    with Cons.prems have "lazy_dots k (acc @ [c]) s = Some (g, r)" and c: "c \<noteq> LF"
      by (auto split: if_splits)
    from Cons.IH[OF this(1)] obtain a b where
      "s = a @ b" "LF \<notin> set a" "g = (acc @ [c]) @ a" "k b = Some r" by blast
    with c show ?thesis by (intro exI[of _ "c # a"] exI[of _ b]) auto
  next
    case (Some r')
    with Cons.prems have "r' = r" "g = acc @ [c]" "c \<noteq> LF" by (auto split: if_splits)
    with Some show ?thesis by (intro exI[of _ "[c]"] exI[of _ s]) auto
  qed
qed

lemma lazy_dots_exists:
  "a \<noteq> [] \<Longrightarrow> LF \<notin> set a \<Longrightarrow> k b \<noteq> None \<Longrightarrow> lazy_dots k acc (a @ b) \<noteq> None"
proof (induction a arbitrary: acc)
  case Nil then show ?case by simp
next
  case (Cons c a)
  show ?case
  proof (cases "a = []")
    case True with Cons.prems show ?thesis by auto
  next
    case False
    with Cons have "lazy_dots k (acc @ [c]) (a @ b) \<noteq> None" by simp
    with Cons.prems show ?thesis by (auto split: option.splits)
  qed
qed

lemma greedy_dots_SomeD:
  "greedy_dots s = Some (g, rest) \<Longrightarrow>
     s = g @ rest \<and> g \<noteq> [] \<and> LF \<notin> set g \<and> (rest = [] \<or> hd rest = LF)"
proof -
  assume a: "greedy_dots s = Some (g, rest)"
  then have g: "g = takeWhile (\<lambda>c. c \<noteq> LF) s" "rest = dropWhile (\<lambda>c. c \<noteq> LF) s" "g \<noteq> []"
    by (auto simp: greedy_dots_def split: if_splits)
  have "rest = [] \<or> hd rest = LF"
    using hd_dropWhile[of "\<lambda>c. c \<noteq> LF" s] g(2) by auto
  moreover have "LF \<notin> set g" using g(1) by (auto dest: set_takeWhileD)
  ultimately show ?thesis using g by simp
qed

lemma failed_at_SomeD:
  assumes "failed_at s = Some (f, t, r, rest)"
  shows "s = ''FAILED '' @ f @ ''::'' @ t @ '' - '' @ r @ rest \<and> f \<noteq> [] \<and> t \<noteq> [] \<and> r \<noteq> []
         \<and> LF \<notin> set f \<and> LF \<notin> set t \<and> LF \<notin> set r \<and> (rest = [] \<or> hd rest = LF)"
proof -
  from assms obtain u1 where u1: "s = ''FAILED '' @ u1"
    "lazy_dots (lit ''::'' (lazy_dots (lit '' - '' greedy_dots) [])) [] u1 = Some (f, t, r, rest)"
    unfolding failed_at_def by (blast dest: lit_SomeD)
  from lazy_dots_SomeD[OF u1(2)] obtain b1 where b1: "u1 = f @ b1" "f \<noteq> []" "LF \<notin> set f"
    "lit ''::'' (lazy_dots (lit '' - '' greedy_dots) []) b1 = Some (t, r, rest)" by auto
  from lit_SomeD[OF b1(4)] obtain u2 where u2: "b1 = ''::'' @ u2"
    "lazy_dots (lit '' - '' greedy_dots) [] u2 = Some (t, r, rest)" by blast
  from lazy_dots_SomeD[OF u2(2)] obtain b2 where b2: "u2 = t @ b2" "t \<noteq> []" "LF \<notin> set t"
    "lit '' - '' greedy_dots b2 = Some (r, rest)" by auto
  from lit_SomeD[OF b2(4)] obtain u3 where u3: "b2 = '' - '' @ u3" "greedy_dots u3 = Some (r, rest)"
    by blast
  from greedy_dots_SomeD[OF u3(2)] u1(1) b1 u2(1) b2 u3(1) show ?thesis by simp
qed


lemma failed_at_exists:
  assumes "f \<noteq> []" "t \<noteq> []" "r \<noteq> []" "LF \<notin> set f" "LF \<notin> set t" "hd r \<noteq> LF"
  shows "failed_at (''FAILED '' @ f @ ''::'' @ t @ '' - '' @ r @ rest) \<noteq> None"
proof -
  let ?k3 = "lit '' - '' greedy_dots"
  let ?k2 = "lit ''::'' (lazy_dots ?k3 [])"
  have "greedy_dots (r @ rest) \<noteq> None"
    using assms(3,6) by (cases r) (auto simp: greedy_dots_def)
  then have "?k3 ('' - '' @ r @ rest) \<noteq> None"
    by (subst lit_append)
  with assms(2,5) have "lazy_dots ?k3 [] (t @ '' - '' @ r @ rest) \<noteq> None"
    by (rule lazy_dots_exists)
  then have "?k2 (''::'' @ t @ '' - '' @ r @ rest) \<noteq> None"
    by (subst lit_append)
  with assms(1,4) have "lazy_dots ?k2 [] (f @ ''::'' @ t @ '' - '' @ r @ rest) \<noteq> None"
    by (rule lazy_dots_exists)
  then show ?thesis unfolding failed_at_def by (subst lit_append)
qed

lemma re_search_SomeD: "re_search m s = Some r \<Longrightarrow> \<exists>pre u. s = pre @ u \<and> m u = Some r"
proof (induction s)
  case Nil then show ?case by simp
next
  case (Cons c s)
  show ?case
  proof (cases "m (c # s)")
    case None
    with Cons obtain pre u where "s = pre @ u" "m u = Some r" by auto
    then show ?thesis by (intro exI[of _ "c # pre"] exI[of _ u]) simp
  next
    case (Some a)
    with Cons.prems show ?thesis by (intro exI[of _ "[]"] exI[of _ "c # s"]) simp
  qed
qed

lemma re_search_exists: "m u \<noteq> None \<Longrightarrow> re_search m (pre @ u) \<noteq> None"
proof (induction pre)
  case Nil then show ?case by (cases u) auto
next
  case (Cons c pre) then show ?case by (auto split: option.splits)
qed

lemma line_failure_well_formed:
  assumes "LF \<notin> set l"
  shows "line_failure l \<noteq> None \<longleftrightarrow> well_formed_line l"
proof
  assume "line_failure l \<noteq> None"
  then obtain f t r rest where "re_search failed_at l = Some (f, t, r, rest)"
    by (auto simp: line_failure_def split: option.splits)
  from re_search_SomeD[OF this] obtain pre u where u: "l = pre @ u" "failed_at u = Some (f, t, r, rest)"
    by blast
  from failed_at_SomeD[OF u(2)] have d: "u = ''FAILED '' @ f @ ''::'' @ t @ '' - '' @ r @ rest"
    "f \<noteq> []" "t \<noteq> []" "r \<noteq> []" "rest = [] \<or> hd rest = LF" by simp_all
  have "rest = []"
  proof (rule ccontr)
    assume n: "rest \<noteq> []"
    with d(5) have "LF \<in> set rest" by (cases rest) auto
    with assms u(1) d(1) show False by simp
  qed
  with u(1) d show "well_formed_line l" unfolding well_formed_line_def by auto
next
  assume "well_formed_line l"
  then obtain pre f t r where d: "l = pre @ ''FAILED '' @ f @ ''::'' @ t @ '' - '' @ r"
    "f \<noteq> []" "t \<noteq> []" "r \<noteq> []" unfolding well_formed_line_def by blast
  from d(4) have "hd r \<in> set r" by simp
  with assms d(1) have n: "LF \<notin> set f" "LF \<notin> set t" "hd r \<noteq> LF" by auto
  from failed_at_exists[OF d(2-4) n, of "[]"]
  have "re_search failed_at l \<noteq> None" unfolding d(1) by (intro re_search_exists) simp
  then show "line_failure l \<noteq> None" by (auto simp: line_failure_def split: option.splits)
qed


lemma prefix_no_LF:
  assumes "LF \<notin> set p" "LF \<notin> set u"
  shows "prefix p (u @ LF # rest) \<longleftrightarrow> prefix p u"
proof
  assume "prefix p (u @ LF # rest)"
  then have "prefix p u \<or> (\<exists>us. p = u @ us \<and> us \<noteq> [] \<and> prefix us (LF # rest))"
    by (auto simp: prefix_append)
  then show "prefix p u"
  proof
    assume "\<exists>us. p = u @ us \<and> us \<noteq> [] \<and> prefix us (LF # rest)"
    then obtain us where "p = u @ us" "us \<noteq> []" "prefix us (LF # rest)" by blast
    then have "LF \<in> set p" by (cases us) auto
    with assms(1) show ?thesis by simp
  qed simp
qed (auto simp: prefix_def)

lemma lit_local:
  assumes "LF \<notin> set p"
    and "\<And>v. LF \<notin> set v \<Longrightarrow> k (v @ LF # rest) = map_option E (k v)"
    and "LF \<notin> set u"
  shows "lit p k (u @ LF # rest) = map_option E (lit p k u)"
proof (cases "prefix p u")
  case True
  then obtain v where v: "u = p @ v" by (auto simp: prefix_def)
  with assms(3) have "LF \<notin> set v" by simp
  from assms(2)[OF this] show ?thesis by (simp add: lit_def v)
next
  case False
  with prefix_no_LF[OF assms(1,3)] show ?thesis by (simp add: lit_def)
qed

lemma lazy_dots_local:
  assumes "\<And>v. LF \<notin> set v \<Longrightarrow> k (v @ LF # rest) = map_option E (k v)"
    and "LF \<notin> set u"
  shows "lazy_dots k acc (u @ LF # rest) = map_option (map_prod id E) (lazy_dots k acc u)"
  using assms(2)
proof (induction u arbitrary: acc)
  case Nil show ?case by simp
next
  case (Cons c u)
  then have u: "LF \<notin> set u" and c: "c \<noteq> LF" by auto
  from assms(1)[OF u] Cons.IH[OF u] c show ?case by (cases "k u") auto
qed

lemma greedy_dots_local:
  assumes "LF \<notin> set u"
  shows "greedy_dots (u @ LF # rest) = map_option (map_prod id (\<lambda>x. x @ LF # rest)) (greedy_dots u)"
proof -
  from assms have a: "\<And>x. x \<in> set u \<Longrightarrow> x \<noteq> LF" by auto
  have "takeWhile (\<lambda>c. c \<noteq> LF) (u @ LF # rest) = u"
    "dropWhile (\<lambda>c. c \<noteq> LF) (u @ LF # rest) = LF # rest"
    "takeWhile (\<lambda>c. c \<noteq> LF) u = u" "dropWhile (\<lambda>c. c \<noteq> LF) u = []"
    using a by simp_all
  then show ?thesis unfolding greedy_dots_def by (simp only:) simp
qed

lemma failed_at_local:
  assumes "LF \<notin> set u"
  shows "failed_at (u @ LF # rest) =
    map_option (\<lambda>(f, t, r, x). (f, t, r, x @ LF # rest)) (failed_at u)"
proof -
  have e: "(\<lambda>(f, t, r, x). (f, t, r, x @ LF # rest))
      = map_prod id (map_prod id (map_prod id (\<lambda>x. x @ LF # rest)))"
    by (auto simp: fun_eq_iff)
  show ?thesis unfolding failed_at_def e
    by (intro lit_local lazy_dots_local greedy_dots_local assms) simp_all
qed

lemma failed_at_line:
  assumes "LF \<notin> set u" "failed_at u = Some (f, t, r, rest)"
  shows "rest = []"
proof (rule ccontr)
  assume n: "rest \<noteq> []"
  from failed_at_SomeD[OF assms(2)] have u: "u = ''FAILED '' @ f @ ''::'' @ t @ '' - '' @ r @ rest"
    and h: "rest = [] \<or> hd rest = LF" by simp_all
  from n h have "LF \<in> set rest" by (cases rest) auto
  with assms(1) u show False by simp
qed

lemma finditer_failed_line:
  assumes "LF \<notin> set u"
  shows "finditer_failed u = (case line_failure u of None \<Rightarrow> [] | Some x \<Rightarrow> [x])"
  using assms
proof (induction u)
  case Nil show ?case by (simp add: line_failure_def failed_at_def lit_def)
next
  case (Cons c u)
  show ?case
  proof (cases "failed_at (c # u)")
    case None
    with Cons show ?thesis by (simp add: line_failure_def)
  next
    case (Some a)
    obtain f t r rest where a: "a = (f, t, r, rest)" by (cases a) auto
    from failed_at_line[OF Cons.prems Some[unfolded a]] Some a
    show ?thesis by (simp add: line_failure_def)
  qed
qed

lemma finditer_failed_LF:
  assumes "LF \<notin> set u"
  shows "finditer_failed (u @ LF # rest) = finditer_failed u @ finditer_failed rest"
  using assms
proof (induction u)
  case Nil
  have "failed_at (LF # rest) = None" by (simp add: failed_at_def lit_def)
  then show ?case by simp
next
  case (Cons c u)
  have n: "failed_at (LF # rest) = None" by (simp add: failed_at_def lit_def)
  show ?case
  proof (cases "failed_at (c # u)")
    case None
    with failed_at_local[OF Cons.prems, of rest] Cons show ?thesis by simp
  next
    case (Some a)
    obtain f t r x where a: "a = (f, t, r, x)" by (cases a) auto
    from failed_at_line[OF Cons.prems Some[unfolded a]] have x: "x = []" .
    from failed_at_local[OF Cons.prems, of rest] Some a x
    have "failed_at (c # u @ LF # rest) = Some (f, t, r, LF # rest)" by simp
    with Some a x n show ?thesis by simp
  qed
qed

lemma finditer_failed_join:
  assumes "\<forall>l \<in> set ls. LF \<notin> set l"
  shows "finditer_failed (py_join [LF] ls) = concat (map finditer_failed ls)"
  using assms
proof (induction "[LF]" ls rule: py_join.induct)
  case 1 show ?case by simp
next
  case (2 l) show ?case by simp
next
  case (3 l l' ls)
  then show ?case by (simp add: finditer_failed_LF)
qed

lemma concat_opt: "concat (map (\<lambda>l. case g l of None \<Rightarrow> [] | Some x \<Rightarrow> [x]) ls) = List.map_filter g ls"
  by (induction ls) (auto simp: List.map_filter_simps split: option.splits)

text \<open>
  Claim C5. The failure parser returns one record for each well-formed line of the
  test-runner output, in the order of the lines: the records are the per-line records of
  the lines that have one (\<open>List.map_filter\<close> keeps the order and removes nothing, so
  a line reported twice gives two records), and their number is the number \<open>k\<close> of
  well-formed lines. The result is the empty list exactly when no line is well formed: a
  value, and not an error.
\<close>

theorem parse_test_failures_lines:
  "parse_test_failures out = List.map_filter line_failure (split_lines out)
   \<and> length (parse_test_failures out) = length (filter well_formed_line (split_lines out))
   \<and> (parse_test_failures out = []) = (filter well_formed_line (split_lines out) = [])"
proof -
  let ?ls = "split_lines out"
  have n: "\<forall>l \<in> set ?ls. LF \<notin> set l" by (auto simp: split_lines_def dest: split_on_no_sep)
  have "parse_test_failures out = finditer_failed (py_join [LF] ?ls)"
    by (simp add: parse_test_failures_def split_lines_def join_split_on)
  also have "\<dots> = concat (map finditer_failed ?ls)" by (rule finditer_failed_join[OF n])
  also have "\<dots> = concat (map (\<lambda>l. case line_failure l of None \<Rightarrow> [] | Some x \<Rightarrow> [x]) ?ls)"
    using n by (intro arg_cong[where f = concat] map_cong refl finditer_failed_line) simp
  also have "\<dots> = List.map_filter line_failure ?ls" by (rule concat_opt)
  finally have a: "parse_test_failures out = List.map_filter line_failure ?ls" .
  have "filter (\<lambda>l. line_failure l \<noteq> None) ?ls = filter well_formed_line ?ls"
    using n by (intro filter_cong refl line_failure_well_formed) simp
  then have "length (List.map_filter line_failure ?ls) = length (filter well_formed_line ?ls)"
    by (simp add: List.map_filter_def)
  with a have b: "length (parse_test_failures out) = length (filter well_formed_line ?ls)" by simp
  then have "(parse_test_failures out = []) = (filter well_formed_line ?ls = [])"
    by (metis length_0_conv)
  with a b show ?thesis by simp
qed

text \<open>A test that is reported twice gives two records, and lines of another form give none.\<close>

lemma parse_test_failures_twice:
  "parse_test_failures
     ''FAILED a.py::t - boom\<newline>2 failed in 0.1s\<newline>FAILED a.py::t - boom''
   = [\<lparr>f_file = ''a.py'', f_test = ''t'', f_error = ''boom''\<rparr>,
      \<lparr>f_file = ''a.py'', f_test = ''t'', f_error = ''boom''\<rparr>]"
  by code_simp

section \<open>Storing a learned fix\<close>

lemma dict_setitem_new: "k \<notin> fst ` set d \<Longrightarrow> dict_setitem k v d = d @ [(k, v)]"
  by (induction d) auto

lemma dict_setitem_old:
  "k \<in> fst ` set d \<Longrightarrow> \<exists>i<length d. fst (d ! i) = k \<and> dict_setitem k v d = d[i := (k, v)]"
proof (induction d)
  case Nil then show ?case by simp
next
  case (Cons p d)
  show ?case
  proof (cases "fst p = k")
    case True
    then show ?thesis by (intro exI[of _ 0]) (cases p, simp)
  next
    case False
    with Cons obtain i where "i < length d" "fst (d ! i) = k" "dict_setitem k v d = d[i := (k, v)]"
      by auto
    with False show ?thesis by (intro exI[of _ "Suc i"]) (cases p, simp)
  qed
qed

lemma dict_setitem_keys:
  "map fst (dict_setitem k v d) = (if k \<in> fst ` set d then map fst d else map fst d @ [k])"
proof (induction d)
  case Nil show ?case by simp
next
  case (Cons p d)
  obtain k' v' where p: "p = (k', v')" by (cases p)
  show ?case
  proof (cases "k' = k")
    case True with p show ?thesis by simp
  next
    case False with p Cons show ?thesis by (cases "k \<in> fst ` set d") auto
  qed
qed

lemma learning_db_store:
  "learning_db (store_learned_fix E error_msg fix_str w) = dict_setitem error_msg fix_str (learning_db w)"
  by (simp add: store_learned_fix_def save_learning_db_def)

text \<open>
  Claim C10. Storing a fix under an error text that is already a key replaces the payload
  of that entry where it stands: the number of entries and the order of the keys stay as
  they were, and the dict after the store is the dict before with the entry at that
  position replaced. An error text that is not yet a key adds one entry, at the end. The
  keys stay distinct.
\<close>

theorem store_learned_fix_in_place:
  "(error_msg \<in> fst ` set (learning_db w) \<longrightarrow>
      length (learning_db (store_learned_fix E error_msg fix_str w)) = length (learning_db w)
      \<and> map fst (learning_db (store_learned_fix E error_msg fix_str w)) = map fst (learning_db w)
      \<and> (\<exists>i<length (learning_db w). fst (learning_db w ! i) = error_msg
            \<and> learning_db (store_learned_fix E error_msg fix_str w)
                = (learning_db w)[i := (error_msg, fix_str)]))
   \<and> (error_msg \<notin> fst ` set (learning_db w) \<longrightarrow>
      learning_db (store_learned_fix E error_msg fix_str w)
        = learning_db w @ [(error_msg, fix_str)])
   \<and> (distinct (map fst (learning_db w)) \<longrightarrow>
      distinct (map fst (learning_db (store_learned_fix E error_msg fix_str w))))"
proof (intro conjI impI)
  assume k: "error_msg \<in> fst ` set (learning_db w)"
  from dict_setitem_old[OF k, of fix_str]
  show "\<exists>i<length (learning_db w). fst (learning_db w ! i) = error_msg
            \<and> learning_db (store_learned_fix E error_msg fix_str w)
                = (learning_db w)[i := (error_msg, fix_str)]"
    by (simp add: learning_db_store)
  from k show "map fst (learning_db (store_learned_fix E error_msg fix_str w)) = map fst (learning_db w)"
    by (simp add: learning_db_store dict_setitem_keys)
  then show "length (learning_db (store_learned_fix E error_msg fix_str w)) = length (learning_db w)"
    by (metis length_map)
next
  assume "error_msg \<notin> fst ` set (learning_db w)"
  then show "learning_db (store_learned_fix E error_msg fix_str w)
        = learning_db w @ [(error_msg, fix_str)]"
    by (simp add: learning_db_store dict_setitem_new)
next
  assume "distinct (map fst (learning_db w))"
  then show "distinct (map fst (learning_db (store_learned_fix E error_msg fix_str w)))"
    by (auto simp: learning_db_store dict_setitem_keys)
qed

theorem store_learned_fix_in_place_witness:
  "''KeyError: a'' \<in> fst ` set (learning_db two_entry_world)
   \<and> ''OSError: c'' \<notin> fst ` set (learning_db two_entry_world)
   \<and> distinct (map fst (learning_db two_entry_world))
   \<and> learning_db (store_learned_fix demo_env ''KeyError: a'' ''third'' two_entry_world)
       = [(''KeyError: a'', ''third''), (''ValueError: b'', ''second'')]
   \<and> learning_db (store_learned_fix demo_env ''OSError: c'' ''third'' two_entry_world)
       = [(''KeyError: a'', ''first''), (''ValueError: b'', ''second''), (''OSError: c'', ''third'')]"
proof -
  have h1: "''KeyError: a'' \<in> fst ` set (learning_db two_entry_world)"
    and h2: "''OSError: c'' \<notin> fst ` set (learning_db two_entry_world)"
    and h3: "distinct (map fst (learning_db two_entry_world))"
    by (simp_all add: two_entry_world_def)
  from store_learned_fix_in_place[of "''OSError: c''" two_entry_world demo_env "''third''"] h2
  have a: "learning_db (store_learned_fix demo_env ''OSError: c'' ''third'' two_entry_world)
        = learning_db two_entry_world @ [(''OSError: c'', ''third'')]" by blast
  from store_learned_fix_in_place[of "''KeyError: a''" two_entry_world demo_env "''third''"] h1
  obtain i where i: "i < length (learning_db two_entry_world)" "fst (learning_db two_entry_world ! i) = ''KeyError: a''"
    "learning_db (store_learned_fix demo_env ''KeyError: a'' ''third'' two_entry_world)
       = (learning_db two_entry_world)[i := (''KeyError: a'', ''third'')]" by blast
  from i(1,2) have "i = 0" by (cases i) (auto simp: two_entry_world_def less_Suc_eq)
  with i(3) have b: "learning_db (store_learned_fix demo_env ''KeyError: a'' ''third'' two_entry_world)
       = [(''KeyError: a'', ''third''), (''ValueError: b'', ''second'')]"
    by (simp add: two_entry_world_def)
  from h1 h2 h3 a b show ?thesis by (simp add: two_entry_world_def)
qed

section \<open>Reading in text mode\<close>


section \<open>What a dispatch leaves alone\<close>

text \<open>
  The pattern tier and the learned tier only write files; the AI tier adds its request to
  the calls; only a successful AI tier changes the learning store.
\<close>

lemma quick_fix_missing_attribute_keeps:
  "events (snd (quick_fix_missing_attribute E f e w)) = events w
   \<and> learning_db (snd (quick_fix_missing_attribute E f e w)) = learning_db w"
  by (auto simp: quick_fix_missing_attribute_def Let_def split: option.splits sum.splits)

lemma quick_fix_assertion_mismatch_keeps:
  "events (snd (quick_fix_assertion_mismatch E f e w)) = events w
   \<and> learning_db (snd (quick_fix_assertion_mismatch E f e w)) = learning_db w"
  by (auto simp: quick_fix_assertion_mismatch_def Let_def split: option.splits sum.splits)

lemma quick_fix_import_error_keeps:
  "events (snd (quick_fix_import_error E f e w)) = events w
   \<and> learning_db (snd (quick_fix_import_error E f e w)) = learning_db w"
  by (auto simp: quick_fix_import_error_def Let_def split: option.splits sum.splits)

lemma quick_fix_type_error_keeps:
  "events (snd (quick_fix_type_error E f e w)) = events w
   \<and> learning_db (snd (quick_fix_type_error E f e w)) = learning_db w"
  by (auto simp: quick_fix_type_error_def Let_def split: option.splits sum.splits)

lemma quick_fix_indentation_keeps:
  "events (snd (quick_fix_indentation E f w)) = events w
   \<and> learning_db (snd (quick_fix_indentation E f w)) = learning_db w"
  by (auto simp: quick_fix_indentation_def Let_def split: option.splits sum.splits)

lemma apply_known_pattern_keeps:
  "events (snd (apply_known_pattern E f w)) = events w
   \<and> learning_db (snd (apply_known_pattern E f w)) = learning_db w"
  by (simp add: apply_known_pattern_def Let_def quick_fix_missing_attribute_keeps
      quick_fix_assertion_mismatch_keeps quick_fix_import_error_keeps quick_fix_type_error_keeps
      quick_fix_indentation_keeps)

lemma apply_patch_obj_keeps:
  "events (snd (apply_patch_obj E p po w)) = events w
   \<and> learning_db (snd (apply_patch_obj E p po w)) = learning_db w"
  by (auto simp: apply_patch_obj_def split: prod.splits option.splits)

lemma apply_learned_payload_keeps:
  "events (snd (apply_learned_payload E p fx w)) = events w
   \<and> learning_db (snd (apply_learned_payload E p fx w)) = learning_db w"
  by (auto simp: apply_learned_payload_def apply_patch_obj_keeps
           split: sum.splits json.splits prod.splits)

lemma apply_learned_payload_keepsD:
  "apply_learned_payload E p fx w = (r, w') \<Longrightarrow> events w' = events w \<and> learning_db w' = learning_db w"
  using apply_learned_payload_keeps[of E p fx w] by simp

lemma apply_adaptive_learning_fix_keeps:
  "events (snd (apply_adaptive_learning_fix E f w)) = events w
   \<and> learning_db (snd (apply_adaptive_learning_fix E f w)) = learning_db w"
  unfolding apply_adaptive_learning_fix_def Let_def
  by (auto split: sum.splits option.splits prod.splits dest!: apply_learned_payload_keepsD)

lemma apply_ollama_deepseek_fix_keeps:
  assumes "\<And>chunks err. \<not> P (AICall chunks err)"
  shows "filter P (events (snd (apply_ollama_deepseek_fix E f w))) = filter P (events w)
   \<and> learning_db (snd (apply_ollama_deepseek_fix E f w)) = learning_db w"
proof -
  have k: "\<And>p po w1 r w2. apply_patch_obj E p po w1 = (r, w2)
      \<Longrightarrow> events w2 = events w1 \<and> learning_db w2 = learning_db w1"
    using apply_patch_obj_keeps by (metis snd_conv)
  show ?thesis
    unfolding apply_ollama_deepseek_fix_def Let_def
    by (auto simp: assms split: sum.splits prod.splits dest!: k)
qed

lemma store_learned_fix_events: "events (store_learned_fix E e fx w) = events w"
  by (simp add: store_learned_fix_def save_learning_db_def)

lemma apply_fix_events:
  assumes "\<And>chunks err. \<not> P (AICall chunks err)"
  shows "filter P (events (snd (apply_fix E f w))) = filter P (events w)"
proof -
  obtain b1 w1 where 1: "apply_known_pattern E f w = (b1, w1)" by (cases "apply_known_pattern E f w")
  obtain r2 w2 where 2: "apply_adaptive_learning_fix E f w1 = (r2, w2)"
    by (cases "apply_adaptive_learning_fix E f w1")
  obtain b3 w3 where 3: "apply_ollama_deepseek_fix E f w2 = (b3, w3)"
    by (cases "apply_ollama_deepseek_fix E f w2")
  from 1 apply_known_pattern_keeps[of E f w] have e1: "events w1 = events w" by simp
  from 2 apply_adaptive_learning_fix_keeps[of E f w1] have e2: "events w2 = events w1" by simp
  from 3 apply_ollama_deepseek_fix_keeps[of P E f w2, OF assms]
  have e3: "filter P (events w3) = filter P (events w2)" by simp
  show ?thesis
    using 1 2 3 e1 e2 e3
    by (auto simp: apply_fix_def store_learned_fix_events split: sum.splits bool.splits)
qed

section \<open>What the AI tier stores, and what the learned tier makes of it\<close>

text \<open>
  The payload that \<open>apply_fix\<close> stores after a successful AI patch is a fixed string
  that has none of the shapes the learned tier recognises, so the learned tier never
  succeeds on an entry the agent stored itself.
\<close>

lemma sentinel_payload_unrecognised:
  "apply_learned_payload E p ''LLM-based patch (not real code)'' w = (Inr False, w)"
  by (simp add: apply_learned_payload_def)

lemma learned_tier_never_applies_sentinel:
  assumes "search_learned_fix (learning_db w) (f_error f) = Some ''LLM-based patch (not real code)''"
  shows "fst (apply_adaptive_learning_fix E f w) \<noteq> Inr True"
  using assms unfolding apply_adaptive_learning_fix_def Let_def
  by (auto simp: sentinel_payload_unrecognised split: sum.splits)

lemma store_learned_fix_persists:
  "disk (store_learned_fix E e fx w) (abspath (cwd E) LEARNING_DB_PATH)
     = Some (json_dump E (dict_setitem e fx (learning_db w)))
   \<and> (e, fx) \<in> set (learning_db (store_learned_fix E e fx w))"
proof -
  have "(e, fx) \<in> set (dict_setitem e fx d)" for d :: "(string \<times> string) list"
    by (induction d) auto
  then show ?thesis
    by (simp add: store_learned_fix_def save_learning_db_def write_text_def)
qed

text \<open>
  Claim C1, on a failure that no pattern classifies, in a world with an empty learning
  store. The first dispatch succeeds at the AI tier, stores the whole error text as a key
  and writes the store to its file at once: that part of the claim holds. A second
  dispatch of the same failure does not succeed at the learned tier: the learned tier
  finds the entry, reports failure because it does not recognise the stored payload, and
  the AI backend is asked a second time. The docstring of \<open>_store_learned_fix\<close> says
  that the pairing is stored "so next time we see the same error, we can skip the LLM
  step".
\<close>

theorem learned_sentinel_is_not_reused:
  "fst (apply_fix demo_env boom_failure (demo_world ''x = 1'')) = Inr True
   \<and> learning_db (snd (apply_fix demo_env boom_failure (demo_world ''x = 1'')))
       = [(''ValueError: boom'', ''LLM-based patch (not real code)'')]
   \<and> disk (snd (apply_fix demo_env boom_failure (demo_world ''x = 1''))) ''/w/learning_db.json''
       = Some (json_dump demo_env [(''ValueError: boom'', ''LLM-based patch (not real code)'')])
   \<and> ai_calls (events (snd (apply_fix demo_env boom_failure (demo_world ''x = 1'')))) = 1
   \<and> fst (apply_adaptive_learning_fix demo_env boom_failure
            (snd (apply_fix demo_env boom_failure (demo_world ''x = 1'')))) = Inr False
   \<and> fst (apply_fix demo_env boom_failure
            (snd (apply_fix demo_env boom_failure (demo_world ''x = 1'')))) = Inr True
   \<and> ai_calls (events (snd (apply_fix demo_env boom_failure
            (snd (apply_fix demo_env boom_failure (demo_world ''x = 1'')))))) = 2"
  by code_simp

section \<open>The backup guard\<close>

text \<open>
  The learned tier: with the target found and a fix looked up, the target is copied to
  \<open><target>.backup\<close> before the payload is applied; when applying raises, the target
  gets back the content it had, and the tier reports failure; when applying returns, its
  result is the result of the tier and nothing is undone. (The payload is applied by
  collaborators, which are supposed not to touch the backup.)
\<close>

lemma learned_tier_guard:
  assumes "learned_file_path E (f_file f) = Inr p"
    and "disk w (abspath (cwd E) p) = Some c"
    and "search_learned_fix (learning_db w) (f_error f) = Some fx" and "fx \<noteq> []"
    and "apply_learned_payload E p fx
           (w\<lparr>disk := (disk w)(abspath (cwd E) (p @ ''.backup'') \<mapsto> c)\<rparr>) = (r, w2)"
    and "disk w2 (abspath (cwd E) (p @ ''.backup'')) = Some c"
  shows "apply_adaptive_learning_fix E f w =
     (case r of
        Inl e \<Rightarrow> (Inr False, w2\<lparr>disk := (disk w2)(abspath (cwd E) p \<mapsto> c)\<rparr>)
      | Inr ok \<Rightarrow> (Inr ok, w2))"
  using assms unfolding apply_adaptive_learning_fix_def Let_def
  by (simp add: path_exists_def shutil_copy_def split: sum.splits)

text \<open>
  Claim C2, for a patch that raises after it has written half of the target. The AI tier
  reports failure, but it made no backup and leaves the target half patched: the target
  after the failed call is not the target before it. The learned tier, on the same target
  with the same patch, has made the backup, restores the target exactly and reports
  failure. The guard that the claim describes is there in one of the two tiers that apply
  patches and missing in the other.
\<close>

theorem ai_tier_has_no_backup:
  "fst (apply_ollama_deepseek_fix raising_env boom_failure (demo_world ''x = 1'')) = False
   \<and> disk (snd (apply_ollama_deepseek_fix raising_env boom_failure (demo_world ''x = 1'')))
        ''/w/tests/t.py'' = Some ''half a patch''
   \<and> disk (snd (apply_ollama_deepseek_fix raising_env boom_failure (demo_world ''x = 1'')))
        ''/w/tests/t.py.backup'' = None
   \<and> fst (apply_adaptive_learning_fix raising_env boom_failure (learned_world ''x = 1'')) = Inr False
   \<and> disk (snd (apply_adaptive_learning_fix raising_env boom_failure (learned_world ''x = 1'')))
        ''/w/tests/t.py'' = Some ''x = 1''
   \<and> disk (snd (apply_adaptive_learning_fix raising_env boom_failure (learned_world ''x = 1'')))
        ''/w/tests/t.py.backup'' = Some ''x = 1''"
  by code_simp

section \<open>Rollback in a pass over the failures\<close>

text \<open>
  A dispatch that returns false ends the pass: the files modified so far are rolled back,
  the result is the terminal failure for the file, and the failures that follow in the
  list are not looked at.
\<close>

lemma fix_failures_first_false:
  assumes "apply_fix E f w = (Inr False, w1)"
  shows "fix_failures E (f # fs) mf w =
     (case rollback_changes E mf w1 of
        (Some e, w2) \<Rightarrow> (Inl e, w2)
      | (None, w2) \<Rightarrow>
          (Inr (Inl \<lparr>status = ''error'',
                     message = ''Could not fix '' @ f_file f @ '' automatically.''\<rparr>), w2))"
  using assms by (simp add: Let_def)

text \<open>
  A dispatch that returns true for a file that is already in the list of modified files
  ends the pass in the same way.
\<close>

lemma fix_failures_repeated_file:
  assumes "apply_fix E f w = (Inr True, w1)" and "f_file f \<in> set mf"
  shows "fix_failures E (f # fs) mf w =
     (case rollback_changes E mf w1 of
        (Some e, w2) \<Rightarrow> (Inl e, w2)
      | (None, w2) \<Rightarrow>
          (Inr (Inl \<lparr>status = ''error'',
                     message = ''Could not fix '' @ f_file f @ '' automatically.''\<rparr>), w2))"
  using assms by (simp add: Let_def)

text \<open>
  Claim C3, for a test run that reports two failures in the same file, both repaired by
  the indentation matcher. Both dispatches return true. The second one nevertheless takes
  the branch of the failed fix, because the test that guards that branch also asks that
  the file is not yet in the list of modified files: the changes are rolled back and the
  cycle ends with "Could not fix t.py automatically." after one test run, without looping
  back to the tests. So rollback and terminal failure also happen when no dispatch
  returned false. The branch itself logs "Failed to fix".
\<close>

theorem second_fix_of_a_file_rolls_back:
  "parse_test_failures (fst (run_tests same_file_env (demo_world [TAB, CHR ''x''])))
     = [\<lparr>f_file = ''t.py'', f_test = ''test_a'', f_error = ''IndentationError: unexpected indent''\<rparr>,
        \<lparr>f_file = ''t.py'', f_test = ''test_b'', f_error = ''IndentationError: unexpected indent''\<rparr>]
   \<and> fst (apply_fix same_file_env
        \<lparr>f_file = ''t.py'', f_test = ''test_a'', f_error = ''IndentationError: unexpected indent''\<rparr>
        (snd (run_tests same_file_env (demo_world [TAB, CHR ''x''])))) = Inr True
   \<and> fst (apply_fix same_file_env
        \<lparr>f_file = ''t.py'', f_test = ''test_b'', f_error = ''IndentationError: unexpected indent''\<rparr>
        (snd (apply_fix same_file_env
          \<lparr>f_file = ''t.py'', f_test = ''test_a'', f_error = ''IndentationError: unexpected indent''\<rparr>
          (snd (run_tests same_file_env (demo_world [TAB, CHR ''x''])))))) = Inr True
   \<and> fst (retry_tests same_file_env 3 (demo_world [TAB, CHR ''x'']))
       = Inr \<lparr>status = ''error'', message = ''Could not fix t.py automatically.''\<rparr>
   \<and> events (snd (retry_tests same_file_env 3 (demo_world [TAB, CHR ''x''])))
       = [TestRun, RollbackCall [''t.py'']]"
  by code_simp

section \<open>The terminal failures of the retry loop\<close>

lemma test_runs_append: "test_runs (xs @ ys) = test_runs xs + test_runs ys"
  by (simp add: test_runs_def)

lemma apply_fix_test_runs: "test_runs (events (snd (apply_fix E f w))) = test_runs (events w)"
  unfolding test_runs_def by (rule arg_cong[where f = length], rule apply_fix_events) simp

lemma rollback_changes_test_runs:
  "test_runs (events (snd (rollback_changes E mf w))) = test_runs (events w)"
  by (auto simp: rollback_changes_def Let_def test_runs_def split: prod.splits)

lemma fix_failures_test_runs:
  "test_runs (events (snd (fix_failures E fs mf w))) = test_runs (events w)"
proof (induction fs arbitrary: mf w)
  case Nil show ?case by simp
next
  case (Cons f fs)
  obtain r w1 where a: "apply_fix E f w = (r, w1)" by (cases "apply_fix E f w")
  with apply_fix_test_runs[of E f w] have t: "test_runs (events w1) = test_runs (events w)" by simp
  obtain x w2 where b: "rollback_changes E mf w1 = (x, w2)" by (cases "rollback_changes E mf w1")
  with rollback_changes_test_runs[of E mf w1] have u: "test_runs (events w2) = test_runs (events w1)"
    by simp
  show ?case using a b t u Cons.IH
    by (auto simp: Let_def split: sum.splits option.splits)
qed

lemma fix_failures_abort:
  "fix_failures E fs mf w = (Inr (Inl r), w') \<Longrightarrow>
     status r = ''error'' \<and> prefix ''Could not fix '' (message r)"
proof (induction fs arbitrary: mf w)
  case Nil then show ?case by simp
next
  case (Cons f fs)
  then show ?case
    by (auto simp: Let_def split: sum.splits option.splits prod.splits if_splits)
qed

lemma run_tests_test_runs: "test_runs (events (snd (run_tests E w))) = test_runs (events w) + 1"
  by (simp add: run_tests_def test_runs_def)

lemma retry_loop_exhausted:
  assumes "retry_loop E n mf w = (Inr r, w')" and "status r \<noteq> ''success''"
    and "\<not> prefix ''Could not fix '' (message r)"
  shows "message r = ''Max retries reached. Unresolved issues remain.''
         \<and> test_runs (events w') = test_runs (events w) + n"
  using assms
proof (induction n arbitrary: mf w)
  case 0
  then show ?case by auto
next
  case (Suc n)
  obtain out w1 where rt: "run_tests E w = (out, w1)" by (cases "run_tests E w")
  with run_tests_test_runs[of E w] have t1: "test_runs (events w1) = test_runs (events w) + 1" by simp
  show ?case
  proof (cases "parse_test_failures out = []")
    case True
    with Suc.prems(1,2) rt show ?thesis by auto
  next
    case False
    obtain x w2 where ff: "fix_failures E (parse_test_failures out) mf w1 = (x, w2)"
      by (cases "fix_failures E (parse_test_failures out) mf w1")
    with fix_failures_test_runs[of E "parse_test_failures out" mf w1]
    have t2: "test_runs (events w2) = test_runs (events w1)" by simp
    show ?thesis
    proof (cases x)
      case (Inl e)
      with Suc.prems(1) rt False ff show ?thesis by simp
    next
      case (Inr y)
      show ?thesis
      proof (cases y)
        case (Inl res)
        with Inr Suc.prems(1) rt False ff have "res = r" by simp
        with fix_failures_abort[OF ff[unfolded Inr Inl]] Suc.prems(3) show ?thesis by simp
      next
        case (Inr mf')
        with \<open>x = Inr y\<close> Suc.prems(1) rt False ff
        have "retry_loop E n mf' w2 = (Inr r, w')" by simp
        from Suc.IH[OF this Suc.prems(2,3)] t1 t2 show ?thesis by simp
      qed
    qed
  qed
qed

lemma retry_loop_first_dispatch_fails:
  assumes "parse_test_failures (fst (run_tests E w)) = f # fs"
    and "fst (apply_fix E f (snd (run_tests E w))) = Inr False"
  shows "fst (retry_loop E (Suc n) [] w)
           = Inr \<lparr>status = ''error'', message = ''Could not fix '' @ f_file f @ '' automatically.''\<rparr>
         \<and> test_runs (events (snd (retry_loop E (Suc n) [] w))) = test_runs (events w) + 1"
proof -
  obtain out w1 where rt: "run_tests E w = (out, w1)" by (cases "run_tests E w")
  with run_tests_test_runs[of E w] have t1: "test_runs (events w1) = test_runs (events w) + 1" by simp
  obtain w2 where af: "apply_fix E f w1 = (Inr False, w2)"
    using assms(2) rt by (cases "apply_fix E f w1") auto
  with apply_fix_test_runs[of E f w1] have t2: "test_runs (events w2) = test_runs (events w1)" by simp
  from rt assms(1) have p: "parse_test_failures out = f # fs" by simp
  show ?thesis using rt p af t1 t2
    by (simp add: fix_failures_first_false rollback_changes_def Let_def test_runs_def)
qed

text \<open>
  The last statement of the loop is reached when the two attempts repair different files:
  the tests are run twice and the result is "Max retries reached. Unresolved issues
  remain.".
\<close>

lemma max_retries_reached_on_two_files:
  "fst (retry_tests two_round_env 2 two_file_world)
     = Inr \<lparr>status = ''error'', message = ''Max retries reached. Unresolved issues remain.''\<rparr>
   \<and> test_runs (events (snd (retry_tests two_round_env 2 two_file_world))) = 2"
  by code_simp

text \<open>
  Claim C6, with \<open>max_retries = 2\<close> and a test runner that reports the same single
  failure at every attempt, whatever was done to the file: the failure is not fixed by any
  dispatch, although each dispatch applies a patch and returns true. The loop is then
  meant to run the tests twice and to end with "Max retries reached. Unresolved issues
  remain.", as its last statement says and as \<open>retry_loop_exhausted\<close> shows for every run
  that no pass ends early. It does run the tests twice, but the second dispatch, of the
  same file, is taken for a failed fix because the file is already in the list of modified
  files: the changes are rolled back and the result is "Could not fix t.py
  automatically.".
\<close>

theorem same_failure_misses_max_retries:
  "parse_test_failures (fst (run_tests same_failure_env (demo_world ''x = 1''))) = [boom_failure]
   \<and> fst (apply_fix same_failure_env boom_failure
            (snd (run_tests same_failure_env (demo_world ''x = 1'')))) = Inr True
   \<and> parse_test_failures (fst (run_tests same_failure_env after_first_attempt)) = [boom_failure]
   \<and> fst (apply_fix same_failure_env boom_failure
            (snd (run_tests same_failure_env after_first_attempt))) = Inr True
   \<and> fst (retry_tests same_failure_env 2 (demo_world ''x = 1''))
       = Inr \<lparr>status = ''error'', message = ''Could not fix t.py automatically.''\<rparr>
   \<and> test_runs (events (snd (retry_tests same_failure_env 2 (demo_world ''x = 1'')))) = 2
   \<and> events (snd (retry_tests same_failure_env 2 (demo_world ''x = 1'')))
       = [TestRun, AICall [''x = 1''] ''ValueError: boom'',
          TestRun, AICall [''patched''] ''ValueError: boom'', RollbackCall [''t.py'']]"
  by code_simp

section \<open>The order of the tiers and of the pattern classes\<close>

lemma apply_known_pattern_classify:
  "apply_known_pattern E f w =
     (case classify (f_error f) of None \<Rightarrow> (False, w) | Some c \<Rightarrow> run_matcher E c f w)"
  by (simp add: apply_known_pattern_def classify_def Let_def)

text \<open>
  Claim C4. The pattern tier runs the matcher of the class of the error text and no other:
  the class is the first, in the order missing attribute, assertion mismatch, import
  error, type error (which also needs \<open>missing\<close> and \<open>required positional argument\<close>),
  indentation, whose substring occurs in the text; with no class the tier fails and
  changes nothing. When the pattern tier succeeds, the dispatch returns true in the world
  the matcher left, with no request to the AI backend and the learning store untouched.
  When it fails, also when a class applied and its matcher failed, the learned tier runs
  next, in the world the pattern tier left; its success is the success of the dispatch,
  without a request to the AI backend. Only when the learned tier fails too does the AI
  tier run, and its result is the result of the dispatch (with the fix stored on
  success).
\<close>

theorem dispatch_priority:
  "apply_known_pattern E f w =
     (case classify (f_error f) of None \<Rightarrow> (False, w) | Some c \<Rightarrow> run_matcher E c f w)
   \<and> (fst (apply_known_pattern E f w) \<longrightarrow>
        apply_fix E f w = (Inr True, snd (apply_known_pattern E f w))
        \<and> events (snd (apply_fix E f w)) = events w
        \<and> learning_db (snd (apply_fix E f w)) = learning_db w)
   \<and> (\<not> fst (apply_known_pattern E f w) \<longrightarrow>
        (case apply_adaptive_learning_fix E f (snd (apply_known_pattern E f w)) of
           (Inl e, w2) \<Rightarrow> apply_fix E f w = (Inl e, w2)
         | (Inr True, w2) \<Rightarrow> apply_fix E f w = (Inr True, w2) \<and> events w2 = events w
         | (Inr False, w2) \<Rightarrow>
             (case apply_ollama_deepseek_fix E f w2 of
                (True, w3) \<Rightarrow>
                  apply_fix E f w
                    = (Inr True,
                       store_learned_fix E (f_error f) ''LLM-based patch (not real code)'' w3)
              | (False, w3) \<Rightarrow> apply_fix E f w = (Inr False, w3))))"
proof (intro conjI impI)
  show "apply_known_pattern E f w =
     (case classify (f_error f) of None \<Rightarrow> (False, w) | Some c \<Rightarrow> run_matcher E c f w)"
    by (rule apply_known_pattern_classify)
next
  assume a: "fst (apply_known_pattern E f w)"
  then show 1: "apply_fix E f w = (Inr True, snd (apply_known_pattern E f w))"
    by (cases "apply_known_pattern E f w") (simp add: apply_fix_def)
  show "events (snd (apply_fix E f w)) = events w"
    "learning_db (snd (apply_fix E f w)) = learning_db w"
    by (simp_all add: 1 apply_known_pattern_keeps)
next
  assume a: "\<not> fst (apply_known_pattern E f w)"
  obtain w1 where 1: "apply_known_pattern E f w = (False, w1)"
    using a by (cases "apply_known_pattern E f w") auto
  with apply_known_pattern_keeps[of E f w] have e1: "events w1 = events w" by simp
  obtain r2 w2 where 2: "apply_adaptive_learning_fix E f w1 = (r2, w2)"
    by (cases "apply_adaptive_learning_fix E f w1")
  with apply_adaptive_learning_fix_keeps[of E f w1] e1 have e2: "events w2 = events w" by simp
  obtain b3 w3 where 3: "apply_ollama_deepseek_fix E f w2 = (b3, w3)"
    by (cases "apply_ollama_deepseek_fix E f w2")
  show "case apply_adaptive_learning_fix E f (snd (apply_known_pattern E f w)) of
           (Inl e, w2) \<Rightarrow> apply_fix E f w = (Inl e, w2)
         | (Inr True, w2) \<Rightarrow> apply_fix E f w = (Inr True, w2) \<and> events w2 = events w
         | (Inr False, w2) \<Rightarrow>
             (case apply_ollama_deepseek_fix E f w2 of
                (True, w3) \<Rightarrow>
                  apply_fix E f w
                    = (Inr True,
                       store_learned_fix E (f_error f) ''LLM-based patch (not real code)'' w3)
              | (False, w3) \<Rightarrow> apply_fix E f w = (Inr False, w3))"
    using 1 2 3 e2 by (cases r2; cases b3) (auto simp: apply_fix_def split: bool.splits)
qed

theorem dispatch_priority_witness:
  "fst (apply_known_pattern demo_env indent_failure (demo_world [TAB, CHR ''x'']))
   \<and> fst (apply_fix demo_env indent_failure (demo_world [TAB, CHR ''x''])) = Inr True
   \<and> disk (snd (apply_fix demo_env indent_failure (demo_world [TAB, CHR ''x''])))
        ''/w/tests/t.py'' = Some ''    x''
   \<and> classify (f_error mixed_failure) = Some MissingAttribute
   \<and> class_applies Indentation (f_error mixed_failure)
   \<and> \<not> fst (apply_known_pattern demo_env mixed_failure (learned_world [TAB, CHR ''x'']))
   \<and> fst (apply_fix demo_env mixed_failure (learned_world [TAB, CHR ''x''])) = Inr True
   \<and> disk (snd (apply_fix demo_env mixed_failure (learned_world [TAB, CHR ''x''])))
        ''/w/tests/t.py'' = Some ''patched''
   \<and> events (snd (apply_fix demo_env mixed_failure (learned_world [TAB, CHR ''x'']))) = []"
proof -
  let ?w = "demo_world [TAB, CHR ''x'']" and ?v = "learned_world [TAB, CHR ''x'']"
  have h1: "fst (apply_known_pattern demo_env indent_failure ?w)" by code_simp
  have s1: "disk (snd (apply_known_pattern demo_env indent_failure ?w)) ''/w/tests/t.py''
              = Some ''    x''" by code_simp
  from dispatch_priority[of demo_env indent_failure ?w] h1
  have "apply_fix demo_env indent_failure ?w
          = (Inr True, snd (apply_known_pattern demo_env indent_failure ?w))" by blast
  with s1 have a: "fst (apply_fix demo_env indent_failure ?w) = Inr True"
    "disk (snd (apply_fix demo_env indent_failure ?w)) ''/w/tests/t.py'' = Some ''    x''"
    by simp_all
  have h2: "\<not> fst (apply_known_pattern demo_env mixed_failure ?v)" by code_simp
  obtain r2 w2 where l2: "apply_adaptive_learning_fix demo_env mixed_failure
      (snd (apply_known_pattern demo_env mixed_failure ?v)) = (r2, w2)"
    by (cases "apply_adaptive_learning_fix demo_env mixed_failure
      (snd (apply_known_pattern demo_env mixed_failure ?v))")
  have "fst (apply_adaptive_learning_fix demo_env mixed_failure
      (snd (apply_known_pattern demo_env mixed_failure ?v))) = Inr True"
    "disk (snd (apply_adaptive_learning_fix demo_env mixed_failure
      (snd (apply_known_pattern demo_env mixed_failure ?v)))) ''/w/tests/t.py'' = Some ''patched''"
    by code_simp+
  with l2 have r2: "r2 = Inr True" "disk w2 ''/w/tests/t.py'' = Some ''patched''" by simp_all
  have ev: "events ?v = []" by (simp add: learned_world_def demo_world_def)
  note dispatch_priority[of demo_env mixed_failure ?v, THEN conjunct2, THEN conjunct2,
      rule_format, OF h2]
  with l2 r2 ev have b: "fst (apply_fix demo_env mixed_failure ?v) = Inr True"
    "disk (snd (apply_fix demo_env mixed_failure ?v)) ''/w/tests/t.py'' = Some ''patched''"
    "events (snd (apply_fix demo_env mixed_failure ?v)) = []"
    by simp_all
  have c: "classify (f_error mixed_failure) = Some MissingAttribute"
    "class_applies Indentation (f_error mixed_failure)" by code_simp+
  from h1 a c h2 b show ?thesis by simp
qed

section \<open>The import-error matcher\<close>

lemma concat_keep_lines: "concat (keep_lines s) = s"
proof (induction s)
  case Nil show ?case by simp
next
  case (Cons c s)
  then show ?case by (cases "keep_lines s") (auto split: if_splits)
qed

lemma module_at_SomeD:
  assumes "re_search module_at error_msg = Some (m, rest)"
  shows "(\<exists>pre. error_msg = pre @ ''No module named '' @ [APOS] @ m @ [APOS] @ rest)
         \<and> m \<noteq> [] \<and> LF \<notin> set m"
proof -
  from re_search_SomeD[OF assms] obtain pre u where u: "error_msg = pre @ u"
    "module_at u = Some (m, rest)" by blast
  from u(2) obtain u1 where u1: "u = (''No module named '' @ [APOS]) @ u1"
    "lazy_dots (lit [APOS] fin) [] u1 = Some (m, rest)"
    unfolding module_at_def by (blast dest: lit_SomeD)
  from lazy_dots_SomeD[OF u1(2)] obtain b where b: "u1 = m @ b" "m \<noteq> []" "LF \<notin> set m"
    "lit [APOS] fin b = Some rest" by auto
  from lit_SomeD[OF b(4)] have "b = [APOS] @ rest" by (auto simp: fin_def)
  with u(1) u1(1) b(1-3) show ?thesis by auto
qed

lemma already_imported_iff:
  "already_imported m ls \<longleftrightarrow> (\<exists>l \<in> set ls. py_in ''import'' l \<and> py_in m l)"
  by (auto simp: already_imported_def list_ex_iff)

text \<open>
  Claim C9 as stated fails: the error text names the module \<open>os\<close>, the only line of the
  target is \<open>import postgres\<close>, which is no import of \<open>os\<close>, and the matcher reports
  failure and leaves the file as it is. The test the matcher makes is that some line
  contains the text \<open>import\<close> and contains the name of the module, anywhere in the line.
\<close>

theorem import_error_counterexample:
  "keep_lines (universal_newlines ''import postgres\<newline>'') = [''import postgres\<newline>'']
   \<and> re_search module_at (''ImportError: No module named '' @ [APOS] @ ''os'' @ [APOS])
       = Some (''os'', [])
   \<and> fst (quick_fix_import_error demo_env ''t.py''
             (''ImportError: No module named '' @ [APOS] @ ''os'' @ [APOS])
             (demo_world ''import postgres\<newline>'')) = False
   \<and> disk (snd (quick_fix_import_error demo_env ''t.py''
             (''ImportError: No module named '' @ [APOS] @ ''os'' @ [APOS])
             (demo_world ''import postgres\<newline>''))) ''/w/tests/t.py''
       = Some ''import postgres\<newline>''"
  by code_simp

text \<open>
  Claim C9, amended. When the error text holds \<open>No module named '<mod>'\<close> (the leftmost
  such place is the one extracted) and the target exists: if no line of the target, as
  read in text mode, contains both the substring \<open>import\<close> and the substring \<open><mod>\<close>,
  the matcher writes the target with the line \<open>import <mod>\<close> put before its first line
  and reports success; if some line contains both, it reports failure and leaves
  everything unchanged.
\<close>

theorem import_error_matcher:
  "re_search module_at error_msg = Some (m, rest)
   \<and> disk w (abspath (cwd E) (path_join ''tests'' file_name)) = Some content
   \<longrightarrow> (\<exists>pre. error_msg = pre @ ''No module named '' @ [APOS] @ m @ [APOS] @ rest)
       \<and> quick_fix_import_error E file_name error_msg w =
           (if \<exists>l \<in> set (keep_lines (universal_newlines content)). py_in ''import'' l \<and> py_in m l
            then (False, w)
            else (True, w\<lparr>disk := (disk w)(abspath (cwd E) (path_join ''tests'' file_name)
                               \<mapsto> ''import '' @ m @ [LF] @ universal_newlines content)\<rparr>))"
proof (rule impI, rule conjI)
  assume a: "re_search module_at error_msg = Some (m, rest)
   \<and> disk w (abspath (cwd E) (path_join ''tests'' file_name)) = Some content"
  from a module_at_SomeD[of error_msg m rest]
  show "\<exists>pre. error_msg = pre @ ''No module named '' @ [APOS] @ m @ [APOS] @ rest" by blast
  from a show "quick_fix_import_error E file_name error_msg w =
           (if \<exists>l \<in> set (keep_lines (universal_newlines content)). py_in ''import'' l \<and> py_in m l
            then (False, w)
            else (True, w\<lparr>disk := (disk w)(abspath (cwd E) (path_join ''tests'' file_name)
                               \<mapsto> ''import '' @ m @ [LF] @ universal_newlines content)\<rparr>))"
    by (simp add: quick_fix_import_error_def Let_def path_exists_def readlines_def read_text_def
        already_imported_iff writelines_def write_text_def list_insert_def concat_keep_lines)
qed

theorem import_error_matcher_witness:
  "re_search module_at (''ImportError: No module named '' @ [APOS] @ ''os'' @ [APOS]) = Some (''os'', [])
   \<and> disk (demo_world ''x = 1\<newline>'') (abspath (cwd demo_env) (path_join ''tests'' ''t.py''))
       = Some ''x = 1\<newline>''
   \<and> disk (demo_world ''import os.path\<newline>'') (abspath (cwd demo_env) (path_join ''tests'' ''t.py''))
       = Some ''import os.path\<newline>''
   \<and> fst (quick_fix_import_error demo_env ''t.py''
             (''ImportError: No module named '' @ [APOS] @ ''os'' @ [APOS]) (demo_world ''x = 1\<newline>''))
   \<and> disk (snd (quick_fix_import_error demo_env ''t.py''
             (''ImportError: No module named '' @ [APOS] @ ''os'' @ [APOS]) (demo_world ''x = 1\<newline>'')))
        ''/w/tests/t.py'' = Some ''import os\<newline>x = 1\<newline>''
   \<and> \<not> fst (quick_fix_import_error demo_env ''t.py''
             (''ImportError: No module named '' @ [APOS] @ ''os'' @ [APOS])
             (demo_world ''import os.path\<newline>''))
   \<and> disk (snd (quick_fix_import_error demo_env ''t.py''
             (''ImportError: No module named '' @ [APOS] @ ''os'' @ [APOS])
             (demo_world ''import os.path\<newline>''))) ''/w/tests/t.py'' = Some ''import os.path\<newline>''"
proof -
  let ?e = "''ImportError: No module named '' @ [APOS] @ ''os'' @ [APOS]"
  let ?p = "abspath (cwd demo_env) (path_join ''tests'' ''t.py'')"
  have h1: "re_search module_at ?e = Some (''os'', [])" by code_simp
  have p: "?p = ''/w/tests/t.py''" by code_simp
  have h2: "disk (demo_world ''x = 1\<newline>'') ?p = Some ''x = 1\<newline>''"
    and h3: "disk (demo_world ''import os.path\<newline>'') ?p = Some ''import os.path\<newline>''"
    unfolding p by (simp_all add: demo_world_def)
  have n: "\<not> (\<exists>l \<in> set (keep_lines (universal_newlines ''x = 1\<newline>'')). py_in ''import'' l \<and> py_in ''os'' l)"
    and y: "\<exists>l \<in> set (keep_lines (universal_newlines ''import os.path\<newline>'')). py_in ''import'' l \<and> py_in ''os'' l"
    by (simp_all add: universal_newlines_def)
  have u: "universal_newlines ''x = 1\<newline>'' = ''x = 1\<newline>''" by (simp add: universal_newlines_def)
  from import_error_matcher[of ?e "''os''" "[]" "demo_world ''x = 1\<newline>''" demo_env "''t.py''" "''x = 1\<newline>''"]
    h1 h2 n
  have a: "quick_fix_import_error demo_env ''t.py'' ?e (demo_world ''x = 1\<newline>'')
    = (True, (demo_world ''x = 1\<newline>'')\<lparr>disk := (disk (demo_world ''x = 1\<newline>''))(?p
                               \<mapsto> ''import '' @ ''os'' @ [LF] @ universal_newlines ''x = 1\<newline>'')\<rparr>)"
    by simp
  from import_error_matcher[of ?e "''os''" "[]" "demo_world ''import os.path\<newline>''" demo_env "''t.py''"
      "''import os.path\<newline>''"] h1 h3 y
  have b: "quick_fix_import_error demo_env ''t.py'' ?e (demo_world ''import os.path\<newline>'')
    = (False, demo_world ''import os.path\<newline>'')"
    by simp
  show ?thesis
    using h1 h2 h3 unfolding a b by (simp add: p u demo_world_def)
qed

section \<open>Running a matcher a second time\<close>

lemma universal_newlines_from_id: "CR \<notin> set s \<Longrightarrow> universal_newlines_from False s = s"
  by (induction s) auto











lemma world_disk_same: "disk w p = Some c \<Longrightarrow> w\<lparr>disk := (disk w)(p \<mapsto> c)\<rparr> = w"
  by (simp add: fun_upd_idem)


















section \<open>Saving and loading the learning store\<close>

text \<open>The writer never writes a carriage return, and the reader reads back what it wrote.\<close>

lemma sixteen_cases:
  assumes "d < (16::nat)"
  obtains "d = 0" | "d = 1" | "d = 2" | "d = 3" | "d = 4" | "d = 5" | "d = 6" | "d = 7"
    | "d = 8" | "d = 9" | "d = 10" | "d = 11" | "d = 12" | "d = 13" | "d = 14" | "d = 15"
  using assms by atomize_elim presburger

lemma hex_value_hex_digit: "d < 16 \<Longrightarrow> hex_value (hex_digit d) = Some d"
  by (erule sixteen_cases) (simp_all add: hex_value_def hex_digit_def hex_digits_def)

lemma hex_digit_no_CR: "d < 16 \<Longrightarrow> hex_digit d \<noteq> CR"
  by (erule sixteen_cases) (simp_all add: hex_digit_def hex_digits_def)

lemma of_char_split: "16 * ((of_char c :: nat) div 16) + (of_char c :: nat) mod 16 = of_char c"
  by simp

lemma of_char_div_16: "(of_char c :: nat) div 16 < 16"
proof -
  have "(of_char c :: nat) < 256" by simp
  then show ?thesis by presburger
qed

lemma escape_char_no_CR: "CR \<notin> set (escape_char c)"
  using hex_digit_no_CR[OF of_char_div_16[of c]] hex_digit_no_CR[of "(of_char c :: nat) mod 16"]
  by (auto simp: escape_char_def)

lemma encode_string_no_CR: "CR \<notin> set (encode_string s)"
  by (auto simp: encode_string_def escape_char_no_CR)

lemma py_join_set: "set (py_join sep xs) \<subseteq> set sep \<union> \<Union> (set ` set xs)"
  by (induction sep xs rule: py_join.induct) auto

lemma py_json_dump_no_CR: "CR \<notin> set (py_json_dump d)"
proof -
  have "CR \<notin> set (dump_item p)" for p
    by (simp add: dump_item_def encode_string_no_CR)
  then have "CR \<notin> set (py_join ('','' @ [LF]) (map dump_item d))"
    using py_join_set[of "'','' @ [LF]" "map dump_item d"] by auto
  then show ?thesis by (simp add: py_json_dump_def)
qed

text \<open>One character, as the writer escapes it, read back inside a key and inside a value.\<close>

lemma hex_pair:
  "hex_value (hex_digit ((of_char c :: nat) div 16)) = Some ((of_char c :: nat) div 16)"
  "hex_value (hex_digit ((of_char c :: nat) mod 16)) = Some ((of_char c :: nat) mod 16)"
  by (simp_all add: hex_value_hex_digit of_char_div_16)

lemma hex_zero: "hex_value (CHR ''0'') = Some 0"
  by (simp add: hex_value_def)

lemma read_escape_key:
  "json_run (Key Plain acc) d (escape_char c @ t) = json_run (Key Plain (acc @ [c])) d t"
  by (simp add: escape_char_def unescape_def hex_pair hex_zero not_less)

lemma read_escape_val:
  "json_run (Val k Plain acc) d (escape_char c @ t) = json_run (Val k Plain (acc @ [c])) d t"
  by (simp add: escape_char_def unescape_def hex_pair hex_zero not_less)

lemma read_key:
  "json_run (Key Plain acc) d (concat (map escape_char s) @ DQUOTE # t)
     = json_run (Colon (acc @ s)) d t"
proof (induction s arbitrary: acc)
  case Nil show ?case by simp
next
  case (Cons c s)
  have "json_run (Key Plain acc) d (concat (map escape_char (c # s)) @ DQUOTE # t)
      = json_run (Key Plain acc) d (escape_char c @ (concat (map escape_char s) @ DQUOTE # t))"
    by simp
  also have "\<dots> = json_run (Key Plain (acc @ [c])) d (concat (map escape_char s) @ DQUOTE # t)"
    by (rule read_escape_key)
  also have "\<dots> = json_run (Colon ((acc @ [c]) @ s)) d t" by (rule Cons.IH)
  finally show ?case by simp
qed

lemma read_val:
  "json_run (Val k Plain acc) d (concat (map escape_char s) @ DQUOTE # t)
     = json_run Next (dict_setitem k (acc @ s) d) t"
proof (induction s arbitrary: acc)
  case Nil show ?case by simp
next
  case (Cons c s)
  have "json_run (Val k Plain acc) d (concat (map escape_char (c # s)) @ DQUOTE # t)
      = json_run (Val k Plain acc) d (escape_char c @ (concat (map escape_char s) @ DQUOTE # t))"
    by simp
  also have "\<dots> = json_run (Val k Plain (acc @ [c])) d (concat (map escape_char s) @ DQUOTE # t)"
    by (rule read_escape_val)
  also have "\<dots> = json_run Next (dict_setitem k ((acc @ [c]) @ s) d) t" by (rule Cons.IH)
  finally show ?case by simp
qed

lemma read_item:
  assumes "st = Open \<or> st = Comma"
  shows "json_run st d (dump_item (k, v) @ t) = json_run Next (dict_setitem k v d) t"
proof -
  have "json_run st d (dump_item (k, v) @ t)
      = json_run (Key Plain []) d
          (concat (map escape_char k) @ DQUOTE # ('': '' @ encode_string v @ t))"
    using assms by (auto simp: dump_item_def encode_string_def is_ws_def)
  also have "\<dots> = json_run (Colon k) d ('': '' @ encode_string v @ t)"
    using read_key[of "[]"] by simp
  also have "\<dots> = json_run (Val k Plain []) d (concat (map escape_char v) @ DQUOTE # t)"
    by (simp add: encode_string_def is_ws_def)
  also have "\<dots> = json_run Next (dict_setitem k v d) t"
    using read_val[of k "[]"] by simp
  finally show ?thesis .
qed

lemma read_more_items:
  "json_run Next d (concat (map (\<lambda>p. ('','' @ [LF]) @ dump_item p) ps) @ LF # ''}'')
     = Inr (foldl (\<lambda>d p. dict_setitem (fst p) (snd p) d) d ps)"
proof (induction ps arbitrary: d)
  case Nil show ?case by (simp add: is_ws_def)
next
  case (Cons p ps)
  obtain k v where p: "p = (k, v)" by (cases p)
  have "json_run Next d (concat (map (\<lambda>p. ('','' @ [LF]) @ dump_item p) (p # ps)) @ LF # ''}'')
     = json_run Comma d (dump_item (k, v)
          @ (concat (map (\<lambda>p. ('','' @ [LF]) @ dump_item p) ps) @ LF # ''}''))"
    by (simp add: p is_ws_def)
  also have "\<dots> = json_run Next (dict_setitem k v d)
      (concat (map (\<lambda>p. ('','' @ [LF]) @ dump_item p) ps) @ LF # ''}'')"
    by (rule read_item) simp
  finally show ?case using Cons.IH by (simp add: p)
qed

lemma py_join_Cons: "py_join sep (x # xs) = x @ concat (map (\<lambda>y. sep @ y) xs)"
  by (induction xs arbitrary: x) auto

lemma foldl_dict_setitem:
  "distinct (map fst (acc @ ps)) \<Longrightarrow>
     foldl (\<lambda>d p. dict_setitem (fst p) (snd p) d) acc ps = acc @ ps"
proof (induction ps arbitrary: acc)
  case Nil show ?case by simp
next
  case (Cons p ps)
  from Cons.prems have "fst p \<notin> fst ` set acc" by auto
  then have "dict_setitem (fst p) (snd p) acc = acc @ [p]" by (simp add: dict_setitem_new)
  moreover from Cons.prems have "distinct (map fst ((acc @ [p]) @ ps))" by simp
  ultimately show ?case using Cons.IH[of "acc @ [p]"] by simp
qed

lemma py_json_round_trip:
  assumes "distinct (map fst d)"
  shows "py_json_load (py_json_dump d) = Inr d"
proof (cases d)
  case Nil
  then show ?thesis by (simp add: py_json_load_def py_json_dump_def is_ws_def)
next
  case (Cons p ps)
  obtain k v where p: "p = (k, v)" by (cases p)
  let ?rest = "concat (map (\<lambda>p. ('','' @ [LF]) @ dump_item p) ps) @ LF # ''}''"
  have "py_json_dump d = ''{'' @ [LF] @ dump_item (k, v) @ ?rest"
    by (simp add: py_json_dump_def Cons p py_join_Cons comp_def)
  then have "py_json_load (py_json_dump d) = json_run Open [] (dump_item (k, v) @ ?rest)"
    by (simp add: py_json_load_def is_ws_def)
  also have "\<dots> = json_run Next (dict_setitem k v []) ?rest"
    by (rule read_item) simp
  also have "\<dots> = Inr (foldl (\<lambda>d p. dict_setitem (fst p) (snd p) d) [(k, v)] ps)"
    using read_more_items[of "[(k, v)]" ps] by simp
  also have "\<dots> = Inr ([(k, v)] @ ps)"
    using assms foldl_dict_setitem[of "[(k, v)]" ps] by (simp add: Cons p)
  finally show ?thesis by (simp add: Cons p)
qed


text \<open>The file of one entry, as the writer lays it out.\<close>

lemma py_json_dump_one:
  "py_json_dump [(''a'', ''b'')]
     = ''{'' @ [LF] @ ''    '' @ [DQUOTE] @ ''a'' @ [DQUOTE] @ '': '' @ [DQUOTE] @ ''b'' @ [DQUOTE]
         @ [LF] @ ''}''"
  by code_simp

lemma load_of_saved:
  assumes "json_dump E = py_json_dump" and "json_load E = py_json_load"
    and "distinct (map fst (learning_db w))"
    and "disk w' = disk (save_learning_db E w)"
  shows "load_learning_db E w' = learning_db w"
proof -
  let ?text = "py_json_dump (learning_db w)"
  have d: "disk w' (abspath (cwd E) LEARNING_DB_PATH) = Some ?text"
    by (simp add: assms(1,4) save_learning_db_def write_text_def)
  have "universal_newlines ?text = ?text"
    unfolding universal_newlines_def
    by (rule universal_newlines_from_id) (rule py_json_dump_no_CR)
  with d have "load_learning_db E w' = (case py_json_load ?text of Inl e \<Rightarrow> [] | Inr data \<Rightarrow> data)"
    by (simp add: load_learning_db_def path_exists_def read_text_def assms(2))
  with py_json_round_trip[OF assms(3)] show ?thesis by simp
qed

text \<open>
  Claim C7. The store is saved, and a process that starts afterwards, with nothing in
  memory and the files as the save left them, loads it: what it gets is the dict that was
  saved, entry for entry and in the same order. Here \<open>json\<close> is the library as written
  above, and the keys of the dict are distinct, as the keys of a dict are. When the
  backing file does not exist, loading gives the empty dict and raises nothing.
\<close>

theorem learning_db_saved_then_loaded:
  "(json_dump E = py_json_dump \<and> json_load E = py_json_load
      \<and> distinct (map fst (learning_db w)) \<and> disk w' = disk (save_learning_db E w)
    \<longrightarrow> load_learning_db E w' = learning_db w)
   \<and> (\<not> path_exists (cwd E) (disk w) LEARNING_DB_PATH \<longrightarrow> load_learning_db E w = [])"
proof (rule conjI; rule impI)
  assume "json_dump E = py_json_dump \<and> json_load E = py_json_load
      \<and> distinct (map fst (learning_db w)) \<and> disk w' = disk (save_learning_db E w)"
  then show "load_learning_db E w' = learning_db w"
    using load_of_saved by blast
next
  assume "\<not> path_exists (cwd E) (disk w) LEARNING_DB_PATH"
  then show "load_learning_db E w = []" by (simp add: load_learning_db_def)
qed

theorem learning_db_saved_then_loaded_witness:
  "json_dump json_env = py_json_dump \<and> json_load json_env = py_json_load
   \<and> distinct (map fst (learning_db escapes_world))
   \<and> disk fresh_world = disk (save_learning_db json_env escapes_world)
   \<and> learning_db fresh_world = []
   \<and> load_learning_db json_env fresh_world
       = [(''KeyError: '' @ [DQUOTE] @ ''a'' @ [DQUOTE], ''x'' @ [BACKSLASH] @ ''y'' @ [CHR 0xE9]),
          (''E  assert 1 == 2'' @ [CR, LF, TAB] @ ''+1'', [])]
   \<and> \<not> path_exists (cwd json_env) (disk escapes_world) LEARNING_DB_PATH
   \<and> load_learning_db json_env escapes_world = []"
proof -
  have h1: "json_dump json_env = py_json_dump" and h2: "json_load json_env = py_json_load"
    by (simp_all add: json_env_def demo_env_def)
  have h3: "distinct (map fst (learning_db escapes_world))"
    by (simp add: escapes_world_def)
  have h4: "disk fresh_world = disk (save_learning_db json_env escapes_world)"
    and h5: "learning_db fresh_world = []"
    by (simp_all add: fresh_world_def)
  have h6: "\<not> path_exists (cwd json_env) (disk escapes_world) LEARNING_DB_PATH"
    by (simp add: path_exists_def escapes_world_def)
  note a = learning_db_saved_then_loaded[of json_env escapes_world fresh_world,
      THEN conjunct1, THEN mp, OF conjI[OF h1 conjI[OF h2 conjI[OF h3 h4]]]]
  note b = learning_db_saved_then_loaded[of json_env escapes_world fresh_world,
      THEN conjunct2, THEN mp, OF h6]
  have c: "learning_db escapes_world
       = [(''KeyError: '' @ [DQUOTE] @ ''a'' @ [DQUOTE], ''x'' @ [BACKSLASH] @ ''y'' @ [CHR 0xE9]),
          (''E  assert 1 == 2'' @ [CR, LF, TAB] @ ''+1'', [])]"
    by (simp add: escapes_world_def)
  show ?thesis
    by (intro conjI) (rule h1 h2 h3 h4 h5 a[unfolded c] h6 b)+
qed

end
